theory Spec2Isabelle
  imports Complex_Main
begin

section \<open>The chunked upload component: data model\<close>

text \<open>
  The component under study is the chunked file uploader of the frontend (a Vue single-file
  component: its template, the \<open>script setup\<close> block with \<open>validateAndAddFiles\<close>,
  \<open>startUpload\<close>, \<open>uploadFile\<close>, \<open>uploadChunks\<close>, \<open>createUploadTask\<close>,
  \<open>uploadChunk\<close>, \<open>checkAllChunksUploaded\<close>, \<open>mergeChunks\<close>,
  \<open>updateFileProgress\<close>, \<open>cancelUpload\<close>, \<open>retryUpload\<close>, \<open>removeFile\<close>).

  JavaScript objects have identity and are mutated in place through closures, so the model
  keeps them in stores addressed by references (natural numbers handed out by counters):
  file entries, chunk arrays, the running instances of the asynchronous function
  \<open>uploadChunks\<close> (called tasks here) and the \<open>XMLHttpRequest\<close> objects.
  Byte counts are whole numbers below \<open>2^53\<close>, which JavaScript numbers represent exactly;
  they are natural numbers here.
\<close>

datatype status = Waiting | Uploading | Success | Error

record chunk =
  c_index :: nat
  c_start :: nat
  c_end :: nat
  c_progress :: nat
  c_status :: status

text \<open>The browser's \<open>File\<close> object, as far as the component reads it.\<close>

record rawfile =
  r_name :: string
  r_size :: nat
  r_type :: string
  r_lastModified :: nat

text \<open>
  \<open>file.progress\<close> is a JavaScript number: a whole percentage, or \<open>NaN\<close> when
  \<open>updateFileProgress\<close> divides by the length of an empty chunk array.
\<close>

datatype jsnumber = NaN | Number nat

record fileEntry =
  f_raw :: rawfile
  f_name :: string
  f_size :: nat
  f_type :: string
  f_status :: status
  f_progress :: jsnumber
  f_chunks :: nat
  f_identifier :: "string option"
  f_uploadId :: "string option"
  f_url :: "string option"

text \<open>
  The props of the component that the script reads. \<open>maxSize\<close> and \<open>chunkSize\<close> are in
  megabytes (whole numbers here); \<open>accept\<close>, \<open>multiple\<close> and \<open>tip\<close> are attributes of
  the template only.
\<close>

record props =
  p_action :: string
  p_headers :: "(string \<times> string) list"
  p_maxSize :: nat
  p_chunkSize :: nat
  p_simultaneousUploads :: nat
  p_autoUpload :: bool
  p_data :: "(string \<times> string) list"

subsection \<open>Requests, replies and what the component does to the outside\<close>

text \<open>
  A form field is a text or the slice \<open>file.raw.slice(start, end)\<close> sent under a file name.
  A request is its URL, its headers and its form fields in the order they are appended.
\<close>

datatype formValue = Text string | Slice nat nat string

record request =
  q_url :: string
  q_headers :: "(string \<times> string) list"
  q_form :: "(string \<times> formValue) list"

text \<open>
  What a \<open>fetch\<close> comes back with: the promise is rejected, or there is a response with a
  status and a body. The body is \<open>None\<close> when \<open>response.json()\<close> is rejected (or yields
  \<open>null\<close>, whose property cannot be read); otherwise it holds the one property the
  component reads (\<open>upload_id\<close>, \<open>url\<close>), \<open>None\<close> for \<open>undefined\<close>.
\<close>

datatype response = TransportError | Http nat "string option option"

datatype failure =
    FetchRejected
  | BodyRejected
  | CreateStatus nat
  | ChunksFailed
  | MergeStatus nat

datatype emitted =
    FileChange "nat list"
  | UploadSuccess nat "string option"
  | UploadError nat failure
  | UploadProgress nat jsnumber
  | UploadComplete "nat list"

text \<open>
  The trace of effects, in the order they happen. Network calls carry the task that issued
  them (and, for a chunk, the request object), so that the calls of one attempt can be told
  from those of another.
\<close>

datatype effect =
    ElMessageError string nat
  | ConsoleError failure
  | Emit emitted
  | CreateCall nat request
  | ChunkCall nat nat request
  | CompleteCall nat request

subsection \<open>Tasks, requests in flight and the state\<close>

text \<open>
  Where an instance of \<open>uploadChunks\<close> is suspended: at the \<open>await\<close> of the create call,
  at the \<open>await\<close> for a free slot inside the loop, at the \<open>await\<close> of
  \<open>checkAllChunksUploaded\<close> (its interval running, or the merge call in flight), or
  returned.
\<close>

datatype outcome = CreateFailed | JoinFailed | MergeFailed | Merged

datatype pc = AwaitCreate | WaitSlot | Joining | Merging | Done outcome

text \<open>
  \<open>t_chunks\<close> is the array the \<open>for ... of\<close> loop iterates (the value of \<open>file.chunks\<close>
  when the loop started), \<open>t_pos\<close> the index of the chunk the loop is suspended at,
  \<open>t_running\<close> the local variable \<open>runningUploads\<close>, and \<open>t_rejected\<close> the number of
  \<open>uploadChunk\<close> promises already rejected whose \<open>finally\<close> callback is still queued
  (it runs when the synchronous stretch of the loop ends).
\<close>

record task =
  t_file :: nat
  t_pc :: pc
  t_chunks :: nat
  t_pos :: nat
  t_running :: int
  t_rejected :: nat

datatype xstate = Pending | Settled | Aborted

text \<open>
  An \<open>XMLHttpRequest\<close> with what its handlers captured: the task whose counter the
  \<open>finally\<close> callback decrements, the file entry and the chunk object (array and index).
\<close>

record xhr =
  x_task :: nat
  x_file :: nat
  x_chunks :: nat
  x_index :: nat
  x_state :: xstate

record state =
  fileList :: "nat list"
  files :: "nat \<Rightarrow> fileEntry"
  arrays :: "nat \<Rightarrow> chunk list"
  tasks :: "nat \<Rightarrow> task"
  xhrs :: "nat \<Rightarrow> xhr"
  nextFile :: nat
  nextArray :: nat
  nextTask :: nat
  nextXhr :: nat
  activeRequests :: "string \<Rightarrow> nat list option"
  loadingRequests :: "string set"
  trace :: "effect list"

section \<open>The operations of the script\<close>

subsection \<open>Chunk planning, identifiers, requests\<close>

text \<open>\<open>n.toString()\<close> for a whole number: its decimal digits.\<close>

fun string_of_nat :: "nat \<Rightarrow> string" where
  "string_of_nat n =
     (if n < 10 then [char_of (48 + n)]
      else string_of_nat (n div 10) @ [char_of (48 + n mod 10)])"

declare string_of_nat.simps [simp del]

text \<open>
  \<open>Math.ceil(file.size / chunkSize)\<close> for \<open>chunkSize > 0\<close>; the quotient of two whole
  numbers below \<open>2^53\<close> is rounded correctly, so the ceiling is the exact one.
\<close>

definition chunkCount :: "nat \<Rightarrow> nat \<Rightarrow> nat" where
  "chunkCount sz chunkSize = (sz + chunkSize - 1) div chunkSize"

text \<open>
  \<open>Array(chunks).fill(0).map((_, index) => ({index, start, end, progress: 0, status:
  'waiting'}))\<close> in \<open>uploadFile\<close>.
\<close>

definition planChunks :: "nat \<Rightarrow> nat \<Rightarrow> chunk list" where
  "planChunks sz chunkSize =
     map (\<lambda>i. \<lparr>c_index = i, c_start = i * chunkSize,
               c_end = min ((i + 1) * chunkSize) sz,
               c_progress = 0, c_status = Waiting\<rparr>)
         [0..<chunkCount sz chunkSize]"

definition calculateFileIdentifier :: "rawfile \<Rightarrow> string" where
  "calculateFileIdentifier file =
     r_name file @ ''_'' @ string_of_nat (r_size file) @ ''_'' @ string_of_nat (r_lastModified file)"

text \<open>A value that may be \<open>undefined\<close>, used as a property key or in a template string.\<close>

definition jsString :: "string option \<Rightarrow> string" where
  "jsString v = (case v of None \<Rightarrow> ''undefined'' | Some s \<Rightarrow> s)"

definition identifierKey :: "fileEntry \<Rightarrow> string" where
  "identifierKey f = jsString (f_identifier f)"

definition extraData :: "props \<Rightarrow> (string \<times> formValue) list" where
  "extraData p = map (\<lambda>(k, v). (k, Text v)) (p_data p)"

definition createRequest :: "props \<Rightarrow> fileEntry \<Rightarrow> nat \<Rightarrow> request" where
  "createRequest p f n =
     \<lparr>q_url = p_action p @ ''/create'', q_headers = p_headers p,
      q_form = [(''filename'', Text (f_name f)),
       (''size'', Text (string_of_nat (f_size f))),
       (''mime_type'', Text (f_type f)),
       (''chunk_size'', Text (string_of_nat (p_chunkSize p * 1024 * 1024))),
       (''chunks'', Text (string_of_nat n))] @ extraData p\<rparr>"

definition chunkRequest :: "props \<Rightarrow> fileEntry \<Rightarrow> chunk \<Rightarrow> request" where
  "chunkRequest p f c =
     \<lparr>q_url = p_action p @ ''/chunk'', q_headers = p_headers p,
      q_form = [(''upload_id'', Text (jsString (f_uploadId f))),
       (''chunk_index'', Text (string_of_nat (c_index c))),
       (''file'', Slice (c_start c) (c_end c) (f_name f))]\<rparr>"

definition completeRequest :: "props \<Rightarrow> fileEntry \<Rightarrow> nat \<Rightarrow> request" where
  "completeRequest p f n =
     \<lparr>q_url = p_action p @ ''/complete'', q_headers = p_headers p,
      q_form = [(''upload_id'', Text (jsString (f_uploadId f))),
       (''filename'', Text (f_name f)),
       (''total_chunks'', Text (string_of_nat n))] @ extraData p\<rparr>"

subsection \<open>Progress\<close>

text \<open>
  \<open>Math.round(totalProgress / file.chunks.length)\<close>: \<open>Math.round\<close> takes the nearest
  whole number, a half upwards, so for a sum \<open>s\<close> of whole numbers and \<open>n > 0\<close> it is
  \<open>\<lfloor>(2s + n) / 2n\<rfloor>\<close>; with \<open>n = 0\<close> the quotient \<open>0 / 0\<close> is \<open>NaN\<close>.
\<close>

definition aggregate :: "nat list \<Rightarrow> jsnumber" where
  "aggregate ps =
     (if ps = [] then NaN
      else Number ((2 * sum_list ps + length ps) div (2 * length ps)))"

definition updateFileProgress :: "nat \<Rightarrow> state \<Rightarrow> state" where
  "updateFileProgress r st =
     (let f = files st r;
          pr = aggregate (map c_progress (arrays st (f_chunks f)))
      in st\<lparr>files := (files st)(r := f\<lparr>f_progress := pr\<rparr>),
            trace := trace st @ [Emit (UploadProgress r pr)]\<rparr>)"

subsection \<open>Starting, cancelling and retrying an upload\<close>

text \<open>
  A call either returns or throws; in both cases the mutations made so far stay. An
  exception that leaves an event handler is reported by the browser and the state is the
  one at the throw.
\<close>

datatype 'a result = Returned 'a | Thrown 'a

definition finish :: "'a result \<Rightarrow> 'a" where
  "finish res = (case res of Returned s \<Rightarrow> s | Thrown s \<Rightarrow> s)"

text \<open>
  \<open>uploadChunks\<close> up to its first \<open>await\<close>: \<open>createUploadTask\<close> builds the form, marks
  the request as loading and issues the create call.
\<close>

definition uploadChunks :: "props \<Rightarrow> nat \<Rightarrow> state \<Rightarrow> state" where
  "uploadChunks p r st =
     (let f = files st r; t = nextTask st
      in st\<lparr>tasks := (tasks st)(t := \<lparr>t_file = r, t_pc = AwaitCreate, t_chunks = f_chunks f,
                                        t_pos = 0, t_running = 0, t_rejected = 0\<rparr>),
            nextTask := Suc t,
            loadingRequests := insert (''upload:create:'' @ identifierKey f) (loadingRequests st),
            trace := trace st @
              [CreateCall t (createRequest p f (length (arrays st (f_chunks f))))]\<rparr>)"

text \<open>
  \<open>uploadFile\<close>. With \<open>chunkSize = 0\<close> the quotient is \<open>Infinity\<close> or \<open>NaN\<close> and
  \<open>Array(chunks)\<close> throws a \<open>RangeError\<close>, after the status has been set.
\<close>

definition uploadFile :: "props \<Rightarrow> nat \<Rightarrow> state \<Rightarrow> state result" where
  "uploadFile p r st =
     (let st1 = st\<lparr>files := (files st)(r := (files st r)\<lparr>f_status := Uploading\<rparr>)\<rparr>;
          chunkSize = p_chunkSize p * 1024 * 1024
      in if chunkSize = 0 then Thrown st1
         else
           let f = files st1 r; a = nextArray st1;
               ident = calculateFileIdentifier (f_raw f);
               st2 = st1\<lparr>arrays := (arrays st1)(a := planChunks (f_size f) chunkSize),
                         nextArray := Suc a,
                         files := (files st1)(r := f\<lparr>f_chunks := a, f_identifier := Some ident\<rparr>),
                         activeRequests := (activeRequests st1)(ident \<mapsto> [])\<rparr>
           in Returned (uploadChunks p r st2))"

text \<open>\<open>fileList.value.forEach(...)\<close> in \<open>startUpload\<close>; an exception ends the iteration.\<close>

fun startUploadFrom :: "props \<Rightarrow> nat list \<Rightarrow> state \<Rightarrow> state result" where
  "startUploadFrom p [] st = Returned st"
| "startUploadFrom p (r # rs) st =
     (if f_status (files st r) = Waiting \<or> f_status (files st r) = Error
      then (case uploadFile p r st of
              Thrown s \<Rightarrow> Thrown s
            | Returned s \<Rightarrow> startUploadFrom p rs s)
      else startUploadFrom p rs st)"

definition startUpload :: "props \<Rightarrow> state \<Rightarrow> state result" where
  "startUpload p st = startUploadFrom p (fileList st) st"

text \<open>
  \<open>xhr.abort()\<close>: a request in flight ends with the events \<open>abort\<close> and \<open>loadend\<close>
  (neither \<open>load\<close> nor \<open>error\<close>), for which \<open>uploadChunk\<close> registers no handler; on a
  request that is over it does nothing.
\<close>

definition abort :: "nat \<Rightarrow> state \<Rightarrow> state" where
  "abort x st =
     st\<lparr>xhrs := (xhrs st)(x := (xhrs st x)\<lparr>x_state :=
           (if x_state (xhrs st x) = Pending then Aborted else x_state (xhrs st x))\<rparr>)\<rparr>"

definition cancelUpload :: "nat \<Rightarrow> state \<Rightarrow> state" where
  "cancelUpload r st =
     (if f_status (files st r) \<noteq> Uploading then st
      else
        let key = identifierKey (files st r);
            st1 = (case activeRequests st key of
                     None \<Rightarrow> st
                   | Some l \<Rightarrow> (fold abort l st)\<lparr>activeRequests := (activeRequests st)(key \<mapsto> [])\<rparr>)
        in st1\<lparr>files := (files st1)(r := (files st1 r)\<lparr>f_status := Error, f_progress := Number 0\<rparr>)\<rparr>)"

definition retryUpload :: "props \<Rightarrow> nat \<Rightarrow> state \<Rightarrow> state result" where
  "retryUpload p r st =
     (let f = files st r; a = nextArray st;
          st1 = st\<lparr>arrays := (arrays st)(a :=
                      map (\<lambda>c. c\<lparr>c_progress := 0, c_status := Waiting\<rparr>) (arrays st (f_chunks f))),
                   nextArray := Suc a,
                   files := (files st)(r := f\<lparr>f_progress := Number 0, f_chunks := a\<rparr>)\<rparr>
      in uploadFile p r st1)"

text \<open>
  \<open>removeFile\<close>; reading the status of \<open>fileList.value[index]\<close> throws a \<open>TypeError\<close>
  when the index is out of range.
\<close>

definition removeFile :: "nat \<Rightarrow> state \<Rightarrow> state result" where
  "removeFile i st =
     (if length (fileList st) \<le> i then Thrown st
      else
        let r = fileList st ! i;
            st1 = (if f_status (files st r) = Uploading then cancelUpload r st else st)
        in Returned (st1\<lparr>fileList := take i (fileList st1) @ drop (Suc i) (fileList st1)\<rparr>))"

subsection \<open>Admission\<close>

text \<open>One round of the loop of \<open>validateAndAddFiles\<close>.\<close>

definition addFile :: "props \<Rightarrow> rawfile \<Rightarrow> state \<Rightarrow> state" where
  "addFile p file st =
     (if r_size file > p_maxSize p * 1024 * 1024
      then st\<lparr>trace := trace st @ [ElMessageError (r_name file) (p_maxSize p)]\<rparr>
      else
        let r = nextFile st; a = nextArray st
        in st\<lparr>fileList := fileList st @ [r],
              files := (files st)(r :=
                \<lparr>f_raw = file, f_name = r_name file, f_size = r_size file, f_type = r_type file,
                 f_status = Waiting, f_progress = Number 0, f_chunks = a,
                 f_identifier = None, f_uploadId = None, f_url = None\<rparr>),
              arrays := (arrays st)(a := []),
              nextFile := Suc r,
              nextArray := Suc a\<rparr>)"

definition validateAndAddFiles :: "props \<Rightarrow> rawfile list \<Rightarrow> state \<Rightarrow> state result" where
  "validateAndAddFiles p fs st =
     (let st1 = fold (addFile p) fs st;
          st2 = st1\<lparr>trace := trace st1 @ [Emit (FileChange (fileList st1))]\<rparr>
      in if p_autoUpload p \<and> fileList st2 \<noteq> [] then startUpload p st2 else Returned st2)"

subsection \<open>Chunk transfers\<close>

definition updChunk :: "nat \<Rightarrow> nat \<Rightarrow> (chunk \<Rightarrow> chunk) \<Rightarrow> state \<Rightarrow> state" where
  "updChunk a i g st = st\<lparr>arrays := (arrays st)(a := (arrays st a)[i := g (arrays st a ! i)])\<rparr>"

text \<open>
  \<open>uploadChunk(file, chunk)\<close> as far as it runs at once: the status, the form, the
  request object, its registration and \<open>xhr.send\<close>. When the registry has no entry under
  the identifier, \<open>push\<close> throws inside the promise's executor and the promise is rejected
  without a request.
\<close>

definition uploadChunk :: "props \<Rightarrow> nat \<Rightarrow> nat \<Rightarrow> state \<Rightarrow> state" where
  "uploadChunk p t i st =
     (let tk = tasks st t; r = t_file tk; a = t_chunks tk;
          st1 = updChunk a i (\<lambda>c. c\<lparr>c_status := Uploading\<rparr>) st;
          f = files st1 r; c = arrays st1 a ! i; x = nextXhr st1
      in case activeRequests st1 (identifierKey f) of
           None \<Rightarrow> st1\<lparr>tasks := (tasks st1)(t := tk\<lparr>t_rejected := Suc (t_rejected tk)\<rparr>)\<rparr>
         | Some l \<Rightarrow>
             st1\<lparr>xhrs := (xhrs st1)(x := \<lparr>x_task = t, x_file = r, x_chunks = a, x_index = i,
                                            x_state = Pending\<rparr>),
                  nextXhr := Suc x,
                  activeRequests := (activeRequests st1)(identifierKey f \<mapsto> l @ [x]),
                  trace := trace st1 @ [ChunkCall t x (chunkRequest p f c)]\<rparr>)"

text \<open>
  The part of the loop body after the wait for a slot:
  \<open>if (chunk.status !== 'success') { runningUploads++; uploadChunk(file, chunk)... }\<close>.
\<close>

definition loopBody :: "props \<Rightarrow> nat \<Rightarrow> nat \<Rightarrow> state \<Rightarrow> state" where
  "loopBody p t i st =
     (if c_status (arrays st (t_chunks (tasks st t)) ! i) \<noteq> Success
      then uploadChunk p t i
             (st\<lparr>tasks := (tasks st)(t := (tasks st t)\<lparr>t_running := t_running (tasks st t) + 1\<rparr>)\<rparr>)
      else st)"

text \<open>
  The task reaches an \<open>await\<close>: the queued \<open>finally\<close> callbacks of promises rejected in
  this stretch run (\<open>runningUploads--\<close> each) and the task stays at the given point.
\<close>

definition suspend :: "nat \<Rightarrow> pc \<Rightarrow> state \<Rightarrow> state" where
  "suspend t point st =
     st\<lparr>tasks := (tasks st)(t := (tasks st t)\<lparr>t_pc := point,
           t_running := t_running (tasks st t) - int (t_rejected (tasks st t)),
           t_rejected := 0\<rparr>)\<rparr>"

text \<open>
  The \<open>for (const chunk of file.chunks)\<close> loop over the indices still to visit. With no
  free slot it waits at the chunk (an interval of 100 ms); after the last chunk it calls
  \<open>checkAllChunksUploaded\<close>, which starts the interval of 500 ms.
\<close>

primrec dispatchFrom :: "props \<Rightarrow> nat \<Rightarrow> nat list \<Rightarrow> state \<Rightarrow> state" where
  "dispatchFrom p t [] st = suspend t Joining st"
| "dispatchFrom p t (i # is) st =
     (if t_running (tasks st t) \<ge> int (p_simultaneousUploads p)
      then suspend t WaitSlot (st\<lparr>tasks := (tasks st)(t := (tasks st t)\<lparr>t_pos := i\<rparr>)\<rparr>)
      else dispatchFrom p t is (loopBody p t i st))"

text \<open>The interval of the wait for a slot fires.\<close>

definition slotTick :: "props \<Rightarrow> nat \<Rightarrow> state \<Rightarrow> state" where
  "slotTick p t st =
     (let tk = tasks st t
      in if t_running tk < int (p_simultaneousUploads p)
         then dispatchFrom p t [Suc (t_pos tk)..<length (arrays st (t_chunks tk))]
                (loopBody p t (t_pos tk) st)
         else st)"

subsection \<open>The create call comes back\<close>

definition createResult :: "response \<Rightarrow> failure + string option" where
  "createResult resp =
     (case resp of
        TransportError \<Rightarrow> Inl FetchRejected
      | Http code body \<Rightarrow>
          if \<not> (200 \<le> code \<and> code \<le> 299) then Inl (CreateStatus code)
          else (case body of None \<Rightarrow> Inl BodyRejected | Some uid \<Rightarrow> Inr uid))"

text \<open>
  The \<open>finally\<close> of \<open>createUploadTask\<close>, then either the \<open>catch\<close> of \<open>uploadChunks\<close> or
  the assignment of the upload id and the loop over \<open>file.chunks\<close> as it is now.
\<close>

definition createResponse :: "props \<Rightarrow> nat \<Rightarrow> response \<Rightarrow> state \<Rightarrow> state" where
  "createResponse p t resp st =
     (let r = t_file (tasks st t); f = files st r;
          st1 = st\<lparr>loadingRequests := loadingRequests st - {''upload:create:'' @ identifierKey f}\<rparr>
      in case createResult resp of
           Inl err \<Rightarrow>
             st1\<lparr>files := (files st1)(r := f\<lparr>f_status := Error\<rparr>),
                  tasks := (tasks st1)(t := (tasks st1 t)\<lparr>t_pc := Done CreateFailed\<rparr>),
                  trace := trace st1 @ [ConsoleError err, Emit (UploadError r err)]\<rparr>
         | Inr uid \<Rightarrow>
             dispatchFrom p t [0..<length (arrays st1 (f_chunks f))]
               (st1\<lparr>files := (files st1)(r := f\<lparr>f_uploadId := uid\<rparr>),
                    tasks := (tasks st1)(t := (tasks st1 t)\<lparr>t_chunks := f_chunks f, t_pos := 0,
                                                             t_running := 0, t_rejected := 0\<rparr>)\<rparr>))"

subsection \<open>The join and the merge\<close>

text \<open>
  One firing of the interval of \<open>checkAllChunksUploaded\<close>, which reads \<open>file.chunks\<close> as
  it is at that moment. On all-success \<open>mergeChunks\<close> runs up to its \<open>fetch\<close>; on an
  error the promise is rejected and the \<open>catch\<close> of \<open>uploadChunks\<close> runs as well.
\<close>

definition joinTick :: "props \<Rightarrow> nat \<Rightarrow> state \<Rightarrow> state" where
  "joinTick p t st =
     (let r = t_file (tasks st t); f = files st r; cs = arrays st (f_chunks f)
      in if list_all (\<lambda>c. c_status c = Success) cs
         then st\<lparr>tasks := (tasks st)(t := (tasks st t)\<lparr>t_pc := Merging\<rparr>),
                 loadingRequests := insert (''upload:merge:'' @ identifierKey f) (loadingRequests st),
                 trace := trace st @ [CompleteCall t (completeRequest p f (length cs))]\<rparr>
         else if list_ex (\<lambda>c. c_status c = Error) cs
         then st\<lparr>files := (files st)(r := f\<lparr>f_status := Error\<rparr>),
                 tasks := (tasks st)(t := (tasks st t)\<lparr>t_pc := Done JoinFailed\<rparr>),
                 trace := trace st @ [Emit (UploadError r ChunksFailed), ConsoleError ChunksFailed,
                                      Emit (UploadError r ChunksFailed)]\<rparr>
         else st)"

definition mergeResult :: "response \<Rightarrow> failure + string option" where
  "mergeResult resp =
     (case resp of
        TransportError \<Rightarrow> Inl FetchRejected
      | Http code body \<Rightarrow>
          if \<not> (200 \<le> code \<and> code \<le> 299) then Inl (MergeStatus code)
          else (case body of None \<Rightarrow> Inl BodyRejected | Some u \<Rightarrow> Inr u))"

definition terminal :: "fileEntry \<Rightarrow> bool" where
  "terminal f = (f_status f = Success \<or> f_status f = Error)"

text \<open>
  The rest of \<open>mergeChunks\<close>: the success path with its events, or its \<open>catch\<close>, its
  \<open>finally\<close> and then the \<open>catch\<close> of \<open>uploadChunks\<close>.
\<close>

definition mergeResponse :: "props \<Rightarrow> nat \<Rightarrow> response \<Rightarrow> state \<Rightarrow> state" where
  "mergeResponse p t resp st =
     (let r = t_file (tasks st t); f = files st r;
          key = ''upload:merge:'' @ identifierKey f
      in case mergeResult resp of
           Inr u \<Rightarrow>
             (let fs = (files st)(r := f\<lparr>f_status := Success, f_url := u, f_progress := Number 100\<rparr>)
              in st\<lparr>files := fs,
                    tasks := (tasks st)(t := (tasks st t)\<lparr>t_pc := Done Merged\<rparr>),
                    loadingRequests := loadingRequests st - {key},
                    trace := trace st @ [Emit (UploadSuccess r u)] @
                      (if list_all (\<lambda>q. terminal (fs q)) (fileList st)
                       then [Emit (UploadComplete (fileList st))] else [])\<rparr>)
         | Inl err \<Rightarrow>
             st\<lparr>files := (files st)(r := f\<lparr>f_status := Error\<rparr>),
                 tasks := (tasks st)(t := (tasks st t)\<lparr>t_pc := Done MergeFailed\<rparr>),
                 loadingRequests := loadingRequests st - {key},
                 trace := trace st @ [Emit (UploadError r err), ConsoleError err,
                                      Emit (UploadError r err)]\<rparr>)"

subsection \<open>Events of a request in flight\<close>

text \<open>
  The end of \<open>onload\<close> and \<open>onerror\<close>: the request leaves the registry (\<open>indexOf\<close>,
  \<open>splice\<close>), the promise settles and its \<open>finally\<close> callback decrements the counter of
  the task. Without a registry entry \<open>indexOf\<close> throws and the promise never settles.
\<close>

definition settle :: "nat \<Rightarrow> state \<Rightarrow> state" where
  "settle x st =
     (let xr = xhrs st x; key = identifierKey (files st (x_file xr));
          st1 = st\<lparr>xhrs := (xhrs st)(x := xr\<lparr>x_state := Settled\<rparr>)\<rparr>
      in case activeRequests st key of
           None \<Rightarrow> st1
         | Some l \<Rightarrow>
             st1\<lparr>activeRequests := (activeRequests st)(key \<mapsto> remove1 x l),
                  tasks := (tasks st)(x_task xr :=
                    (tasks st (x_task xr))\<lparr>t_running := t_running (tasks st (x_task xr)) - 1\<rparr>)\<rparr>)"

definition xhrLoad :: "nat \<Rightarrow> nat \<Rightarrow> state \<Rightarrow> state" where
  "xhrLoad x code st =
     (let xr = xhrs st x
      in settle x (updateFileProgress (x_file xr)
           (updChunk (x_chunks xr) (x_index xr)
              (\<lambda>c. if 200 \<le> code \<and> code < 300
                    then c\<lparr>c_status := Success, c_progress := 100\<rparr>
                    else c\<lparr>c_status := Error\<rparr>) st)))"

definition xhrError :: "nat \<Rightarrow> state \<Rightarrow> state" where
  "xhrError x st =
     (let xr = xhrs st x
      in settle x (updateFileProgress (x_file xr)
           (updChunk (x_chunks xr) (x_index xr) (\<lambda>c. c\<lparr>c_status := Error\<rparr>) st)))"

text \<open>
  A progress event of the upload. \<open>Computable n\<close> stands for an event with
  \<open>lengthComputable\<close> whose \<open>Math.round((e.loaded / e.total) * 100)\<close> is \<open>n\<close> (the
  floating-point evaluation of that expression is not modelled).
\<close>

datatype progressEvent = NotComputable | Computable nat

definition xhrProgress :: "nat \<Rightarrow> progressEvent \<Rightarrow> state \<Rightarrow> state" where
  "xhrProgress x e st =
     (case e of
        NotComputable \<Rightarrow> st
      | Computable n \<Rightarrow>
          (let xr = xhrs st x
           in updateFileProgress (x_file xr)
                (updChunk (x_chunks xr) (x_index xr) (\<lambda>c. c\<lparr>c_progress := n\<rparr>) st)))"

section \<open>The component as a transition system\<close>

text \<open>
  Everything runs on one event loop: an event handler and the promise callbacks it queues
  run to the end before the next event is taken. The events are the user's actions on the
  template, the calls of the host through \<open>defineExpose\<close>, the replies of the network and
  the firings of the two intervals.
\<close>

datatype event =
    SelectFiles "rawfile list"
  | DropFiles "rawfile list"
  | ClickCancel nat
  | ClickRetry nat
  | ClickRemove nat
  | HostUpload
  | HostClearFiles
  | CreateResponse nat response
  | SlotTick nat
  | JoinTick nat
  | MergeResponse nat response
  | XhrProgress nat progressEvent
  | XhrLoad nat nat
  | XhrError nat

text \<open>
  One event. \<open>None\<close> means that the event cannot happen in this state: the template shows
  the cancel button only for an uploading entry, the retry button only for an errored one
  and the remove button otherwise; a reply needs its call in flight, a firing its interval,
  an event of a request that the request is in flight; a progress event never reports more
  than was to be sent.
\<close>

definition step :: "props \<Rightarrow> event \<Rightarrow> state \<Rightarrow> state option" where
  "step p e st =
     (case e of
        SelectFiles fs \<Rightarrow>
          if fs = [] then Some st else Some (finish (validateAndAddFiles p fs st))
      | DropFiles fs \<Rightarrow> Some (finish (validateAndAddFiles p fs st))
      | ClickCancel r \<Rightarrow>
          if r \<in> set (fileList st) \<and> f_status (files st r) = Uploading
          then Some (cancelUpload r st) else None
      | ClickRetry r \<Rightarrow>
          if r \<in> set (fileList st) \<and> f_status (files st r) = Error
          then Some (finish (retryUpload p r st)) else None
      | ClickRemove i \<Rightarrow>
          if i < length (fileList st)
             \<and> f_status (files st (fileList st ! i)) \<noteq> Uploading
             \<and> f_status (files st (fileList st ! i)) \<noteq> Error
          then Some (finish (removeFile i st)) else None
      | HostUpload \<Rightarrow> Some (finish (startUpload p st))
      | HostClearFiles \<Rightarrow> Some (st\<lparr>fileList := []\<rparr>)
      | CreateResponse t resp \<Rightarrow>
          if t < nextTask st \<and> t_pc (tasks st t) = AwaitCreate
          then Some (createResponse p t resp st) else None
      | SlotTick t \<Rightarrow>
          if t < nextTask st \<and> t_pc (tasks st t) = WaitSlot
          then Some (slotTick p t st) else None
      | JoinTick t \<Rightarrow>
          if t < nextTask st \<and> t_pc (tasks st t) = Joining
          then Some (joinTick p t st) else None
      | MergeResponse t resp \<Rightarrow>
          if t < nextTask st \<and> t_pc (tasks st t) = Merging
          then Some (mergeResponse p t resp st) else None
      | XhrProgress x ev \<Rightarrow>
          if x < nextXhr st \<and> x_state (xhrs st x) = Pending
             \<and> (case ev of NotComputable \<Rightarrow> True | Computable n \<Rightarrow> n \<le> 100)
          then Some (xhrProgress x ev st) else None
      | XhrLoad x code \<Rightarrow>
          if x < nextXhr st \<and> x_state (xhrs st x) = Pending
          then Some (xhrLoad x code st) else None
      | XhrError x \<Rightarrow>
          if x < nextXhr st \<and> x_state (xhrs st x) = Pending
          then Some (xhrError x st) else None)"

fun run :: "props \<Rightarrow> event list \<Rightarrow> state \<Rightarrow> state option" where
  "run p [] st = Some st"
| "run p (e # es) st = (case step p e st of None \<Rightarrow> None | Some st' \<Rightarrow> run p es st')"

text \<open>
  The component after setup: an empty list, an empty registry, nothing allocated. What the
  stores hold at references not yet handed out is never read.
\<close>

definition initialState :: state where
  "initialState =
     \<lparr>fileList = [],
      files = (\<lambda>_. \<lparr>f_raw = \<lparr>r_name = [], r_size = 0, r_type = [], r_lastModified = 0\<rparr>,
                     f_name = [], f_size = 0, f_type = [], f_status = Waiting,
                     f_progress = Number 0, f_chunks = 0, f_identifier = None,
                     f_uploadId = None, f_url = None\<rparr>),
      arrays = (\<lambda>_. []),
      tasks = (\<lambda>_. \<lparr>t_file = 0, t_pc = Done CreateFailed, t_chunks = 0, t_pos = 0,
                     t_running = 0, t_rejected = 0\<rparr>),
      xhrs = (\<lambda>_. \<lparr>x_task = 0, x_file = 0, x_chunks = 0, x_index = 0, x_state = Settled\<rparr>),
      nextFile = 0, nextArray = 0, nextTask = 0, nextXhr = 0,
      activeRequests = (\<lambda>_. None),
      loadingRequests = {},
      trace = []\<rparr>"

section \<open>Notions used in the statements\<close>

text \<open>
  \<open>pcOf\<close> is the point a task is at, \<open>chunksOf\<close> the value of \<open>file.chunks\<close> in a state
  and \<open>issued\<close> the effects added between two states of a run.
\<close>

abbreviation pcOf :: "state \<Rightarrow> nat \<Rightarrow> pc" where
  "pcOf st t \<equiv> t_pc (tasks st t)"

definition chunksOf :: "state \<Rightarrow> nat \<Rightarrow> chunk list" where
  "chunksOf st r = arrays st (f_chunks (files st r))"

definition issued :: "state \<Rightarrow> state \<Rightarrow> effect list" where
  "issued st st' = drop (length (trace st)) (trace st')"

fun edge :: "pc \<Rightarrow> pc \<Rightarrow> bool" where
  "edge AwaitCreate q = (q = Done CreateFailed \<or> q = WaitSlot \<or> q = Joining)"
| "edge WaitSlot q = (q = WaitSlot \<or> q = Joining)"
| "edge Joining q = (q = Merging \<or> q = Done JoinFailed)"
| "edge Merging q = (q = Done MergeFailed \<or> q = Done Merged)"
| "edge (Done out) q = False"

definition noCall :: "effect \<Rightarrow> bool" where
  "noCall e = (case e of CreateCall _ _ \<Rightarrow> False | ChunkCall _ _ _ \<Rightarrow> False
               | CompleteCall _ _ \<Rightarrow> False | _ \<Rightarrow> True)"

definition newOk :: "state \<Rightarrow> state \<Rightarrow> effect \<Rightarrow> bool" where
  "newOk st st' e =
     (case e of
        CreateCall t _ \<Rightarrow> nextTask st \<le> t \<and> t < nextTask st' \<and> pcOf st' t = AwaitCreate
      | ChunkCall t _ _ \<Rightarrow> t < nextTask st \<and> (pcOf st t = AwaitCreate \<or> pcOf st t = WaitSlot)
                            \<and> (pcOf st' t = WaitSlot \<or> pcOf st' t = Joining)
      | CompleteCall t _ \<Rightarrow> t < nextTask st \<and> pcOf st t = Joining \<and> pcOf st' t = Merging
                            \<and> list_all (\<lambda>c. c_status c = Success) (chunksOf st (t_file (tasks st t)))
      | _ \<Rightarrow> True)"

definition summary :: "state \<Rightarrow> state \<Rightarrow> bool" where
  "summary st st' =
     (nextTask st \<le> nextTask st'
      \<and> (\<forall>t<nextTask st. pcOf st' t = pcOf st t \<or> edge (pcOf st t) (pcOf st' t))
      \<and> (\<exists>xs. trace st' = trace st @ xs \<and> (\<forall>e\<in>set xs. newOk st st' e)))"

definition oldOk :: "state \<Rightarrow> effect \<Rightarrow> bool" where
  "oldOk st e =
     (case e of
        CreateCall t _ \<Rightarrow> t < nextTask st
      | ChunkCall t _ _ \<Rightarrow> t < nextTask st \<and> pcOf st t \<noteq> AwaitCreate \<and> pcOf st t \<noteq> Done CreateFailed
      | CompleteCall t _ \<Rightarrow> t < nextTask st
           \<and> (pcOf st t = Merging \<or> pcOf st t = Done MergeFailed \<or> pcOf st t = Done Merged)
      | _ \<Rightarrow> True)"

definition traceInv :: "state \<Rightarrow> bool" where
  "traceInv st = list_all (oldOk st) (trace st)"

definition spawns :: "state \<Rightarrow> state \<Rightarrow> bool" where
  "spawns st st' =
     (nextTask st \<le> nextTask st'
      \<and> (\<forall>t<nextTask st. tasks st' t = tasks st t)
      \<and> (\<forall>t. nextTask st \<le> t \<and> t < nextTask st' \<longrightarrow> pcOf st' t = AwaitCreate)
      \<and> (\<exists>xs. trace st' = trace st @ xs
             \<and> (\<forall>e\<in>set xs. noCall e \<or> (\<exists>t q. e = CreateCall t q \<and> nextTask st \<le> t \<and> t < nextTask st'))))"

text \<open>
  The unweighted arithmetic mean of the spec (section 4.5), in its words: the sum of the
  chunk progress percentages over their number.
\<close>

definition arithmeticMean :: "nat list \<Rightarrow> real" where
  "arithmeticMean ps = real (sum_list ps) / real (length ps)"

text \<open>A file passes the size check of \<open>validateAndAddFiles\<close>.\<close>

abbreviation admissible :: "props \<Rightarrow> rawfile \<Rightarrow> bool" where
  "admissible p f \<equiv> r_size f \<le> p_maxSize p * 1024 * 1024"

text \<open>The handles in the registry under a key (none when the key has no entry).\<close>

definition registered :: "state \<Rightarrow> string \<Rightarrow> nat list" where
  "registered st key = (case activeRequests st key of None \<Rightarrow> [] | Some l \<Rightarrow> l)"

text \<open>A configuration and a file of 12 MB (three chunks of at most 5 MB) for the examples.\<close>

definition demoProps :: props where
  "demoProps = \<lparr>p_action = ''/api/upload'', p_headers = [], p_maxSize = 100, p_chunkSize = 5,
                p_simultaneousUploads = 3, p_autoUpload = True, p_data = []\<rparr>"

definition demoFile :: rawfile where
  "demoFile = \<lparr>r_name = ''scores.csv'', r_size = 12582912, r_type = ''text/csv'',
               r_lastModified = 1\<rparr>"

text \<open>The file selected (and, with \<open>autoUpload\<close>, started), then the create call answered.\<close>

definition demoQueued :: state where
  "demoQueued = finish (validateAndAddFiles demoProps [demoFile] initialState)"

definition demoUploading :: state where
  "demoUploading = createResponse demoProps 0 (Http 200 (Some (Some ''u1''))) demoQueued"

text \<open>The first chunk accepted, the second answered with status 500 and the join check fired.\<close>

definition demoFailed :: state where
  "demoFailed = joinTick demoProps 0 (xhrLoad 1 500 (xhrLoad 0 200 demoUploading))"

text \<open>
  The same configuration with a chunk size of 1 MB and short strings, and a file of 2.5 MB
  (three chunks), for the longer runs.
\<close>

definition smallProps :: props where
  "smallProps = \<lparr>p_action = ''/u'', p_headers = [], p_maxSize = 100, p_chunkSize = 1,
                 p_simultaneousUploads = 3, p_autoUpload = True, p_data = []\<rparr>"

definition smallFile :: rawfile where
  "smallFile = \<lparr>r_name = ''f'', r_size = 2621440, r_type = ''t'', r_lastModified = 1\<rparr>"

text \<open>The \<open>upload-error\<close> events of a trace, and the tasks of its complete calls.\<close>

definition isUploadError :: "effect \<Rightarrow> bool" where
  "isUploadError e = (case e of Emit (UploadError _ _) \<Rightarrow> True | _ \<Rightarrow> False)"

definition completeCalls :: "effect list \<Rightarrow> nat list" where
  "completeCalls tr = concat (map (\<lambda>e. case e of CompleteCall t _ \<Rightarrow> [t] | _ \<Rightarrow> []) tr)"

section \<open>The chunk plan\<close>

lemma chunkCount_upper: 
  assumes "0 < c" shows "s \<le> chunkCount s c * c"
proof -
  have "(s + c - 1) mod c < c" using assms by simp
  moreover have "chunkCount s c * c + (s + c - 1) mod c = s + c - 1"
    by (simp add: chunkCount_def)
  ultimately show ?thesis using assms by linarith
qed

lemma chunkCount_lower:
  assumes "0 < c" "i < chunkCount s c" shows "i * c < s"
proof -
  have "Suc i * c \<le> chunkCount s c * c" using assms(2) by (simp only: mult_le_mono1 Suc_leI)
  moreover have "chunkCount s c * c \<le> s + c - 1"
    by (simp add: chunkCount_def)
  ultimately show ?thesis using assms(1) by simp
qed

lemma chunkCount_ceiling:
  assumes "0 < c"
  shows "int (chunkCount s c) = \<lceil>real s / real c\<rceil>"
proof (rule sym, rule ceiling_unique)
  show "real s / real c \<le> real_of_int (int (chunkCount s c))"
    using chunkCount_upper[OF assms, of s] assms
    by (simp add: divide_le_eq flip: of_nat_mult)
  show "real_of_int (int (chunkCount s c)) - 1 < real s / real c"
  proof (cases "chunkCount s c")
    case 0
    have "0 \<le> real s / real c" by simp
    then show ?thesis using 0 by linarith
  next
    case (Suc k)
    then have "k * c < s" using chunkCount_lower[OF assms, of k s] by simp
    then have "real k * real c < real s" by (simp flip: of_nat_mult)
    then show ?thesis using Suc assms by (simp add: less_divide_eq)
  qed
qed


lemma planChunks_length: "length (planChunks s c) = chunkCount s c"
  by (simp add: planChunks_def)

lemma planChunks_nth:
  "i < chunkCount s c \<Longrightarrow>
   planChunks s c ! i = \<lparr>c_index = i, c_start = i * c, c_end = min ((i + 1) * c) s,
                          c_progress = 0, c_status = Waiting\<rparr>"
  by (simp add: planChunks_def)

lemma chunkCount_pos: "0 < s \<Longrightarrow> 0 < c \<Longrightarrow> 0 < chunkCount s c"
  using chunkCount_upper[of c s] by (cases "chunkCount s c") auto

lemma uploadFile_plan:
  assumes "uploadFile p r st = Returned st'"
  shows "0 < p_chunkSize p \<and>
         arrays st' (f_chunks (files st' r)) =
           planChunks (f_size (files st r)) (p_chunkSize p * 1024 * 1024)"
  using assms by (auto simp: uploadFile_def uploadChunks_def Let_def split: if_splits)

text \<open>
  C1. For a file of size \<open>s > 0\<close> and a chunk size of \<open>c > 0\<close> bytes, the plan that
  \<open>uploadFile\<close> builds (\<open>planChunks\<close>, see \<open>uploadFile_plan\<close>) is a list of
  \<open>\<lceil>s / c\<rceil>\<close> chunks; chunk \<open>i\<close> has index \<open>i\<close> and the non-empty range
  \<open>[i * c, min ((i + 1) * c) s)\<close>; every chunk but the last has length \<open>c\<close> and ends where
  the next one starts; the first starts at \<open>0\<close>, the last ends at \<open>s\<close>, and every byte
  offset below \<open>s\<close> lies in exactly one chunk.
\<close>

theorem chunk_plan_partition:
  assumes "0 < s" and "0 < c"
  shows "let cs = planChunks s c in
           int (length cs) = \<lceil>real s / real c\<rceil>
         \<and> (\<forall>i<length cs. c_index (cs ! i) = i \<and> c_start (cs ! i) = i * c
                \<and> c_end (cs ! i) = min ((i + 1) * c) s \<and> c_start (cs ! i) < c_end (cs ! i))
         \<and> (\<forall>i. Suc i < length cs \<longrightarrow>
                c_end (cs ! i) = c_start (cs ! i) + c \<and> c_start (cs ! Suc i) = c_end (cs ! i))
         \<and> c_start (hd cs) = 0 \<and> c_end (last cs) = s
         \<and> (\<forall>b<s. \<exists>!i. i < length cs \<and> c_start (cs ! i) \<le> b \<and> b < c_end (cs ! i))"
proof -
  let ?n = "chunkCount s c"
  let ?cs = "planChunks s c"
  have len: "length ?cs = ?n" by (rule planChunks_length)
  have npos: "0 < ?n" using assms by (rule chunkCount_pos)
  have A: "int (length ?cs) = \<lceil>real s / real c\<rceil>"
    using chunkCount_ceiling[OF assms(2), of s] len by simp
  have B: "\<forall>i<length ?cs. c_index (?cs ! i) = i \<and> c_start (?cs ! i) = i * c
                \<and> c_end (?cs ! i) = min ((i + 1) * c) s \<and> c_start (?cs ! i) < c_end (?cs ! i)"
  proof (intro allI impI)
    fix i assume "i < length ?cs"
    then have i: "i < ?n" using len by simp
    have "i * c < s" using chunkCount_lower[OF assms(2) i] .
    then show "c_index (?cs ! i) = i \<and> c_start (?cs ! i) = i * c
                \<and> c_end (?cs ! i) = min ((i + 1) * c) s \<and> c_start (?cs ! i) < c_end (?cs ! i)"
      using assms(2) by (simp add: planChunks_nth[OF i])
  qed
  have C: "\<forall>i. Suc i < length ?cs \<longrightarrow>
                c_end (?cs ! i) = c_start (?cs ! i) + c \<and> c_start (?cs ! Suc i) = c_end (?cs ! i)"
  proof (intro allI impI)
    fix i assume "Suc i < length ?cs"
    then have si: "Suc i < ?n" and i: "i < ?n" using len by simp_all
    have "Suc i * c < s" using chunkCount_lower[OF assms(2) si] .
    then show "c_end (?cs ! i) = c_start (?cs ! i) + c \<and> c_start (?cs ! Suc i) = c_end (?cs ! i)"
      by (simp add: planChunks_nth[OF i] planChunks_nth[OF si])
  qed
  have ne: "?cs \<noteq> []" using npos len by auto
  have D: "c_start (hd ?cs) = 0"
    using npos by (simp add: hd_conv_nth[OF ne] planChunks_nth)
  have E: "c_end (last ?cs) = s"
  proof -
    have l: "?n - 1 < ?n" using npos by simp
    have "s \<le> ?n * c" using chunkCount_upper[OF assms(2)] .
    moreover have "(?n - 1 + 1) * c = ?n * c" using npos by simp
    ultimately show ?thesis
      using npos len by (simp add: last_conv_nth[OF ne] planChunks_nth[OF l] del: One_nat_def)
  qed
  have F: "\<forall>b<s. \<exists>!i. i < length ?cs \<and> c_start (?cs ! i) \<le> b \<and> b < c_end (?cs ! i)"
  proof (intro allI impI)
    fix b assume b: "b < s"
    have "b < ?n * c" using b chunkCount_upper[OF assms(2), of s] by simp
    then have i: "b div c < ?n" using assms(2) by (simp add: div_less_iff_less_mult)
    have lo: "(b div c) * c \<le> b" by simp
    have hi: "b < (b div c + 1) * c"
      using assms(2) by (metis Suc_eq_plus1 dividend_less_div_times mult.commute mult_Suc_right add.commute)
    show "\<exists>!i. i < length ?cs \<and> c_start (?cs ! i) \<le> b \<and> b < c_end (?cs ! i)"
    proof (rule ex1I[of _ "b div c"])
      show "b div c < length ?cs \<and> c_start (?cs ! (b div c)) \<le> b \<and> b < c_end (?cs ! (b div c))"
        using i lo hi b len by (simp add: planChunks_nth[OF i])
    next
      fix j assume j: "j < length ?cs \<and> c_start (?cs ! j) \<le> b \<and> b < c_end (?cs ! j)"
      then have jn: "j < ?n" using len by simp
      from j have "j * c \<le> b" "b < (j + 1) * c"
        by (simp_all add: planChunks_nth[OF jn])
      then show "j = b div c"
        using assms(2) by (metis Suc_eq_plus1 add.commute div_nat_eqI mult.commute)
    qed
  qed
  show ?thesis unfolding Let_def using A B C D E F by blast
qed

theorem chunk_plan_partition_witness:
  "(0::nat) < 12 \<and> (0::nat) < 5 \<and>
   (let cs = planChunks 12 5 in
           int (length cs) = \<lceil>real 12 / real 5\<rceil>
         \<and> (\<forall>i<length cs. c_index (cs ! i) = i \<and> c_start (cs ! i) = i * 5
                \<and> c_end (cs ! i) = min ((i + 1) * 5) 12 \<and> c_start (cs ! i) < c_end (cs ! i))
         \<and> (\<forall>i. Suc i < length cs \<longrightarrow>
                c_end (cs ! i) = c_start (cs ! i) + 5 \<and> c_start (cs ! Suc i) = c_end (cs ! i))
         \<and> c_start (hd cs) = 0 \<and> c_end (last cs) = 12
         \<and> (\<forall>b<12. \<exists>!i. i < length cs \<and> c_start (cs ! i) \<le> b \<and> b < c_end (cs ! i)))"
  using chunk_plan_partition[of 12 5] by simp

section \<open>Tasks and the trace along a run\<close>

lemma spawns_refl: "spawns st st"
  by (auto simp: spawns_def)

lemma spawns_trans:
  assumes "spawns a b" "spawns b c" shows "spawns a c"
proof -
  from assms(1) obtain xs where xs: "trace b = trace a @ xs"
    "\<forall>e\<in>set xs. noCall e \<or> (\<exists>t q. e = CreateCall t q \<and> nextTask a \<le> t \<and> t < nextTask b)"
    by (auto simp: spawns_def)
  from assms(2) obtain ys where ys: "trace c = trace b @ ys"
    "\<forall>e\<in>set ys. noCall e \<or> (\<exists>t q. e = CreateCall t q \<and> nextTask b \<le> t \<and> t < nextTask c)"
    by (auto simp: spawns_def)
  have le: "nextTask a \<le> nextTask b" "nextTask b \<le> nextTask c"
    using assms by (auto simp: spawns_def)
  have old: "\<forall>t<nextTask a. tasks c t = tasks a t"
    using assms le by (auto simp: spawns_def)
  have new: "\<forall>t. nextTask a \<le> t \<and> t < nextTask c \<longrightarrow> pcOf c t = AwaitCreate"
  proof (intro allI impI)
    fix t assume t: "nextTask a \<le> t \<and> t < nextTask c"
    show "pcOf c t = AwaitCreate"
    proof (cases "t < nextTask b")
      case True
      then have "tasks c t = tasks b t" using assms(2) by (simp add: spawns_def)
      moreover have "pcOf b t = AwaitCreate" using assms(1) t True by (simp add: spawns_def)
      ultimately show ?thesis by simp
    next
      case False
      then show ?thesis using assms(2) t by (simp add: spawns_def)
    qed
  qed
  have tr: "trace c = trace a @ (xs @ ys)" using xs ys by simp
  have eff: "\<forall>e\<in>set (xs @ ys). noCall e \<or> (\<exists>t q. e = CreateCall t q \<and> nextTask a \<le> t \<and> t < nextTask c)"
  proof
    fix e assume "e \<in> set (xs @ ys)"
    then consider "e \<in> set xs" | "e \<in> set ys" by auto
    then show "noCall e \<or> (\<exists>t q. e = CreateCall t q \<and> nextTask a \<le> t \<and> t < nextTask c)"
    proof cases
      case 1 with xs(2) le(2) show ?thesis by (meson less_le_trans)
    next
      case 2 with ys(2) le(1) show ?thesis by (meson le_trans)
    qed
  qed
  have "nextTask a \<le> nextTask c" using le by simp
  with tr old new eff show ?thesis unfolding spawns_def by blast
qed

lemma spawns_summary:
  assumes "spawns st st'" shows "summary st st'"
proof -
  from assms obtain xs where xs: "trace st' = trace st @ xs"
    "\<forall>e\<in>set xs. noCall e \<or> (\<exists>t q. e = CreateCall t q \<and> nextTask st \<le> t \<and> t < nextTask st')"
    by (auto simp: spawns_def)
  have "\<forall>e\<in>set xs. newOk st st' e"
  proof
    fix e assume "e \<in> set xs"
    with xs(2) consider "noCall e" | t q where "e = CreateCall t q" "nextTask st \<le> t" "t < nextTask st'"
      by blast
    then show "newOk st st' e"
    proof cases
      case 1 then show ?thesis by (cases e) (simp_all add: noCall_def newOk_def)
    next
      case 2 then show ?thesis using assms by (simp add: newOk_def spawns_def)
    qed
  qed
  with xs(1) assms show ?thesis by (auto simp: summary_def spawns_def)
qed


subsection \<open>What each operation leaves alone\<close>

lemma updChunk_frame [simp]:
  "tasks (updChunk a i g st) = tasks st"
  "nextTask (updChunk a i g st) = nextTask st"
  "trace (updChunk a i g st) = trace st"
  "files (updChunk a i g st) = files st"
  "fileList (updChunk a i g st) = fileList st"
  "xhrs (updChunk a i g st) = xhrs st"
  "nextXhr (updChunk a i g st) = nextXhr st"
  "activeRequests (updChunk a i g st) = activeRequests st"
  by (simp_all add: updChunk_def)

lemma updateFileProgress_frame [simp]:
  "tasks (updateFileProgress r st) = tasks st"
  "nextTask (updateFileProgress r st) = nextTask st"
  "fileList (updateFileProgress r st) = fileList st"
  "arrays (updateFileProgress r st) = arrays st"
  "xhrs (updateFileProgress r st) = xhrs st"
  "nextXhr (updateFileProgress r st) = nextXhr st"
  "activeRequests (updateFileProgress r st) = activeRequests st"
  by (simp_all add: updateFileProgress_def Let_def)

lemma updateFileProgress_trace:
  "trace (updateFileProgress r st) =
     trace st @ [Emit (UploadProgress r (aggregate (map c_progress (chunksOf st r))))]"
  by (simp add: updateFileProgress_def Let_def chunksOf_def)

lemma fold_abort_frame [simp]:
  "tasks (fold abort l st) = tasks st"
  "nextTask (fold abort l st) = nextTask st"
  "trace (fold abort l st) = trace st"
  "files (fold abort l st) = files st"
  "fileList (fold abort l st) = fileList st"
  "arrays (fold abort l st) = arrays st"
  "activeRequests (fold abort l st) = activeRequests st"
  by (induction l arbitrary: st; simp add: abort_def)+

lemma cancelUpload_frame [simp]:
  "tasks (cancelUpload r st) = tasks st"
  "nextTask (cancelUpload r st) = nextTask st"
  "trace (cancelUpload r st) = trace st"
  "fileList (cancelUpload r st) = fileList st"
  "arrays (cancelUpload r st) = arrays st"
  by (simp_all add: cancelUpload_def Let_def split: option.splits)

lemma settle_frame [simp]:
  "nextTask (settle x st) = nextTask st"
  "trace (settle x st) = trace st"
  "pcOf (settle x st) t = pcOf st t"
  "files (settle x st) = files st"
  "arrays (settle x st) = arrays st"
  "fileList (settle x st) = fileList st"
  by (simp_all add: settle_def Let_def split: option.splits)

lemma uploadChunk_frame [simp]:
  "nextTask (uploadChunk p t i st) = nextTask st"
  "pcOf (uploadChunk p t i st) t' = pcOf st t'"
  "t_file (tasks (uploadChunk p t i st) t') = t_file (tasks st t')"
  "t_chunks (tasks (uploadChunk p t i st) t') = t_chunks (tasks st t')"
  "files (uploadChunk p t i st) = files st"
  "fileList (uploadChunk p t i st) = fileList st"
  by (simp_all add: uploadChunk_def Let_def split: option.splits)

lemma uploadChunk_trace:
  "trace (uploadChunk p t i st) = trace st
   \<or> (\<exists>x q. trace (uploadChunk p t i st) = trace st @ [ChunkCall t x q])"
  by (simp add: uploadChunk_def Let_def split: option.splits)

lemma loopBody_frame [simp]:
  "nextTask (loopBody p t i st) = nextTask st"
  "pcOf (loopBody p t i st) t' = pcOf st t'"
  "t_file (tasks (loopBody p t i st) t') = t_file (tasks st t')"
  "t_chunks (tasks (loopBody p t i st) t') = t_chunks (tasks st t')"
  "files (loopBody p t i st) = files st"
  "fileList (loopBody p t i st) = fileList st"
  by (simp_all add: loopBody_def)

lemma loopBody_trace:
  "trace (loopBody p t i st) = trace st
   \<or> (\<exists>x q. trace (loopBody p t i st) = trace st @ [ChunkCall t x q])"
  using uploadChunk_trace[of p t i
      "st\<lparr>tasks := (tasks st)(t := (tasks st t)\<lparr>t_running := t_running (tasks st t) + 1\<rparr>)\<rparr>"]
  by (simp add: loopBody_def)

lemma suspend_frame [simp]:
  "nextTask (suspend t pt st) = nextTask st"
  "trace (suspend t pt st) = trace st"
  "pcOf (suspend t pt st) t' = (if t' = t then pt else pcOf st t')"
  "t_file (tasks (suspend t pt st) t') = t_file (tasks st t')"
  "t_chunks (tasks (suspend t pt st) t') = t_chunks (tasks st t')"
  "files (suspend t pt st) = files st"
  "arrays (suspend t pt st) = arrays st"
  "fileList (suspend t pt st) = fileList st"
  by (simp_all add: suspend_def)

lemma dispatchFrom_frame [simp]:
  "nextTask (dispatchFrom p t is st) = nextTask st"
  "t' \<noteq> t \<Longrightarrow> pcOf (dispatchFrom p t is st) t' = pcOf st t'"
  "t_file (tasks (dispatchFrom p t is st) t') = t_file (tasks st t')"
  "files (dispatchFrom p t is st) = files st"
  "fileList (dispatchFrom p t is st) = fileList st"
  by (induction "is" arbitrary: st; simp)+

lemma dispatchFrom_pc:
  "pcOf (dispatchFrom p t is st) t = WaitSlot \<or> pcOf (dispatchFrom p t is st) t = Joining"
  by (induction "is" arbitrary: st) simp_all

lemma dispatchFrom_trace:
  "\<exists>xs. trace (dispatchFrom p t is st) = trace st @ xs \<and> (\<forall>e\<in>set xs. \<exists>x q. e = ChunkCall t x q)"
proof (induction "is" arbitrary: st)
  case Nil
  show ?case by simp
next
  case (Cons i "is")
  show ?case
  proof (cases "t_running (tasks st t) \<ge> int (p_simultaneousUploads p)")
    case True
    then show ?thesis by simp
  next
    case False
    from Cons.IH[of "loopBody p t i st"] obtain xs where
      xs: "trace (dispatchFrom p t is (loopBody p t i st)) = trace (loopBody p t i st) @ xs"
          "\<forall>e\<in>set xs. \<exists>x q. e = ChunkCall t x q" by blast
    from loopBody_trace[of p t i st] show ?thesis
    proof
      assume "trace (loopBody p t i st) = trace st"
      with xs False show ?thesis by auto
    next
      assume "\<exists>x q. trace (loopBody p t i st) = trace st @ [ChunkCall t x q]"
      then obtain x q where "trace (loopBody p t i st) = trace st @ [ChunkCall t x q]" by blast
      with xs False have "trace (dispatchFrom p t (i # is) st) = trace st @ (ChunkCall t x q # xs)"
        by simp
      moreover have "\<forall>e\<in>set (ChunkCall t x q # xs). \<exists>x q. e = ChunkCall t x q"
        using xs(2) by simp
      ultimately show ?thesis by blast
    qed
  qed
qed


subsection \<open>Operations that start uploads\<close>

lemma spawnsI_quiet:
  assumes "nextTask st' = nextTask st" "tasks st' = tasks st"
      and "trace st' = trace st @ xs" "\<forall>e\<in>set xs. noCall e"
  shows "spawns st st'"
  using assms unfolding spawns_def by auto

lemma uploadFile_spawns: "spawns st (finish (uploadFile p r st))"
proof (cases "p_chunkSize p * 1024 * 1024 = 0")
  case True
  then show ?thesis
    by (auto simp: uploadFile_def finish_def Let_def intro: spawnsI_quiet[where xs="[]"])
next
  case False
  then show ?thesis
    unfolding spawns_def
    by (auto simp: uploadFile_def finish_def Let_def uploadChunks_def)
qed

lemma startUploadFrom_spawns: "spawns st (finish (startUploadFrom p rs st))"
proof (induction rs arbitrary: st)
  case Nil
  show ?case by (simp add: finish_def spawns_refl)
next
  case (Cons r rs)
  show ?case
  proof (cases "f_status (files st r) = Waiting \<or> f_status (files st r) = Error")
    case False
    then show ?thesis using Cons.IH[of st] by simp
  next
    case True
    show ?thesis
    proof (cases "uploadFile p r st")
      case (Thrown s)
      then show ?thesis using True uploadFile_spawns[of st p r] by (simp add: finish_def)
    next
      case (Returned s)
      then have "spawns st s" using uploadFile_spawns[of st p r] by (simp add: finish_def)
      moreover have "spawns s (finish (startUploadFrom p rs s))" by (rule Cons.IH)
      ultimately show ?thesis using True Returned by (auto intro: spawns_trans)
    qed
  qed
qed

lemma startUpload_spawns: "spawns st (finish (startUpload p st))"
  by (simp add: startUpload_def startUploadFrom_spawns)

lemma retryUpload_spawns: "spawns st (finish (retryUpload p r st))"
proof -
  let ?st1 = "st\<lparr>arrays := (arrays st)(nextArray st :=
                      map (\<lambda>c. c\<lparr>c_progress := 0, c_status := Waiting\<rparr>) (arrays st (f_chunks (files st r)))),
                   nextArray := Suc (nextArray st),
                   files := (files st)(r := (files st r)\<lparr>f_progress := Number 0, f_chunks := nextArray st\<rparr>)\<rparr>"
  have "spawns st ?st1" by (rule spawnsI_quiet[where xs="[]"]) simp_all
  moreover have "spawns ?st1 (finish (uploadFile p r ?st1))" by (rule uploadFile_spawns)
  ultimately show ?thesis by (auto simp: retryUpload_def Let_def intro: spawns_trans)
qed

lemma removeFile_spawns: "spawns st (finish (removeFile i st))"
  by (rule spawnsI_quiet[where xs="[]"]) (simp_all add: removeFile_def finish_def Let_def)

lemma addFile_spawns: "spawns st (addFile p file st)"
  by (cases "r_size file > p_maxSize p * 1024 * 1024")
     (auto simp: addFile_def Let_def noCall_def
           intro: spawnsI_quiet[where xs="[]"] spawnsI_quiet[where xs="[ElMessageError (r_name file) (p_maxSize p)]"])

lemma fold_addFile_spawns: "spawns st (fold (addFile p) fs st)"
proof (induction fs arbitrary: st)
  case Nil
  show ?case by (simp add: spawns_refl)
next
  case (Cons f fs)
  show ?case using addFile_spawns[of st p f] Cons.IH[of "addFile p f st"]
    by (auto intro: spawns_trans)
qed

lemma validateAndAddFiles_spawns: "spawns st (finish (validateAndAddFiles p fs st))"
proof -
  let ?st1 = "fold (addFile p) fs st"
  let ?st2 = "?st1\<lparr>trace := trace ?st1 @ [Emit (FileChange (fileList ?st1))]\<rparr>"
  have a: "spawns st ?st1" by (rule fold_addFile_spawns)
  have b: "spawns ?st1 ?st2"
    by (rule spawnsI_quiet[where xs="[Emit (FileChange (fileList ?st1))]"]) (simp_all add: noCall_def)
  have c: "spawns ?st2 (finish (startUpload p ?st2))" by (rule startUpload_spawns)
  from a b have ab: "spawns st ?st2" by (rule spawns_trans)
  from ab c have "spawns st (finish (startUpload p ?st2))" by (rule spawns_trans)
  with ab show ?thesis by (auto simp: validateAndAddFiles_def Let_def finish_def)
qed


subsection \<open>Every step is summarised\<close>

lemma summaryI_task:
  assumes "nextTask st' = nextTask st"
      and "\<forall>t'. t' \<noteq> t \<longrightarrow> pcOf st' t' = pcOf st t'"
      and "pcOf st' t = pcOf st t \<or> edge (pcOf st t) (pcOf st' t)"
      and "trace st' = trace st @ xs" "\<forall>e\<in>set xs. newOk st st' e"
  shows "summary st st'"
proof -
  have "\<forall>u<nextTask st. pcOf st' u = pcOf st u \<or> edge (pcOf st u) (pcOf st' u)"
  proof (intro allI impI)
    fix u show "pcOf st' u = pcOf st u \<or> edge (pcOf st u) (pcOf st' u)"
      using assms(2,3) by (cases "u = t") auto
  qed
  moreover have "\<exists>xs. trace st' = trace st @ xs \<and> (\<forall>e\<in>set xs. newOk st st' e)"
    using assms(4,5) by blast
  ultimately show ?thesis unfolding summary_def using assms(1) by simp
qed

lemma summaryI_quiet:
  assumes "nextTask st' = nextTask st" "\<forall>t. pcOf st' t = pcOf st t"
      and "trace st' = trace st @ xs" "\<forall>e\<in>set xs. noCall e"
  shows "summary st st'"
proof -
  have "\<forall>e\<in>set xs. newOk st st' e"
  proof
    fix e assume "e \<in> set xs"
    then have "noCall e" using assms(4) by simp
    then show "newOk st st' e" by (cases e) (simp_all add: noCall_def newOk_def)
  qed
  then show ?thesis unfolding summary_def using assms(1,2,3) by auto
qed

lemma createResponse_summary:
  assumes "t < nextTask st" "pcOf st t = AwaitCreate"
  shows "summary st (createResponse p t resp st)"
proof (cases "createResult resp")
  case (Inl err)
  show ?thesis
    by (rule summaryI_task[where t=t and
          xs="[ConsoleError err, Emit (UploadError (t_file (tasks st t)) err)]"])
       (simp_all add: createResponse_def Let_def Inl assms newOk_def)
next
  case (Inr uid)
  let ?st1 = "st\<lparr>loadingRequests := loadingRequests st -
                 {''upload:create:'' @ identifierKey (files st (t_file (tasks st t)))}\<rparr>"
  let ?st2 = "?st1\<lparr>files := (files ?st1)(t_file (tasks st t) := (files st (t_file (tasks st t)))\<lparr>f_uploadId := uid\<rparr>),
                    tasks := (tasks ?st1)(t := (tasks ?st1 t)\<lparr>t_chunks := f_chunks (files st (t_file (tasks st t))), t_pos := 0,
                                                             t_running := 0, t_rejected := 0\<rparr>)\<rparr>"
  let ?is = "[0..<length (arrays ?st1 (f_chunks (files st (t_file (tasks st t)))))]"
  have eq: "createResponse p t resp st = dispatchFrom p t ?is ?st2"
    by (simp add: createResponse_def Let_def Inr)
  obtain xs where xs: "trace (dispatchFrom p t ?is ?st2) = trace ?st2 @ xs"
      "\<forall>e\<in>set xs. \<exists>x q. e = ChunkCall t x q"
    using dispatchFrom_trace[of p t ?is ?st2] by blast
  have pc: "pcOf (dispatchFrom p t ?is ?st2) t = WaitSlot \<or> pcOf (dispatchFrom p t ?is ?st2) t = Joining"
    by (rule dispatchFrom_pc)
  show ?thesis unfolding eq
  proof (rule summaryI_task[where t=t and xs=xs])
    show "nextTask (dispatchFrom p t ?is ?st2) = nextTask st" by simp
    show "\<forall>t'. t' \<noteq> t \<longrightarrow> pcOf (dispatchFrom p t ?is ?st2) t' = pcOf st t'" by simp
    show "pcOf (dispatchFrom p t ?is ?st2) t = pcOf st t
          \<or> edge (pcOf st t) (pcOf (dispatchFrom p t ?is ?st2) t)"
      using pc assms(2) by auto
    show "trace (dispatchFrom p t ?is ?st2) = trace st @ xs" using xs(1) by simp
    show "\<forall>e\<in>set xs. newOk st (dispatchFrom p t ?is ?st2) e"
      using xs(2) pc assms by (auto simp: newOk_def)
  qed
qed

lemma slotTick_summary:
  assumes "t < nextTask st" "pcOf st t = WaitSlot"
  shows "summary st (slotTick p t st)"
proof (cases "t_running (tasks st t) < int (p_simultaneousUploads p)")
  case False
  then show ?thesis
    by (auto simp: slotTick_def Let_def intro: summaryI_quiet[where xs="[]"])
next
  case True
  let ?st1 = "loopBody p t (t_pos (tasks st t)) st"
  let ?is = "[Suc (t_pos (tasks st t))..<length (arrays st (t_chunks (tasks st t)))]"
  have eq: "slotTick p t st = dispatchFrom p t ?is ?st1"
    using True by (simp add: slotTick_def Let_def)
  obtain xs where xs: "trace (dispatchFrom p t ?is ?st1) = trace ?st1 @ xs"
      "\<forall>e\<in>set xs. \<exists>x q. e = ChunkCall t x q"
    using dispatchFrom_trace[of p t ?is ?st1] by blast
  obtain ys where ys: "trace ?st1 = trace st @ ys" "\<forall>e\<in>set ys. \<exists>x q. e = ChunkCall t x q"
    using loopBody_trace[of p t "t_pos (tasks st t)" st] by fastforce
  have pc: "pcOf (dispatchFrom p t ?is ?st1) t = WaitSlot \<or> pcOf (dispatchFrom p t ?is ?st1) t = Joining"
    by (rule dispatchFrom_pc)
  show ?thesis unfolding eq
  proof (rule summaryI_task[where t=t and xs="ys @ xs"])
    show "nextTask (dispatchFrom p t ?is ?st1) = nextTask st" by simp
    show "\<forall>t'. t' \<noteq> t \<longrightarrow> pcOf (dispatchFrom p t ?is ?st1) t' = pcOf st t'" by simp
    show "pcOf (dispatchFrom p t ?is ?st1) t = pcOf st t
          \<or> edge (pcOf st t) (pcOf (dispatchFrom p t ?is ?st1) t)"
      using pc assms(2) by auto
    show "trace (dispatchFrom p t ?is ?st1) = trace st @ ys @ xs" using xs(1) ys(1) by simp
    show "\<forall>e\<in>set (ys @ xs). newOk st (dispatchFrom p t ?is ?st1) e"
      using xs(2) ys(2) pc assms by (auto simp: newOk_def)
  qed
qed

lemma joinTick_summary:
  assumes "t < nextTask st" "pcOf st t = Joining"
  shows "summary st (joinTick p t st)"
proof -
  let ?r = "t_file (tasks st t)"
  let ?cs = "arrays st (f_chunks (files st ?r))"
  consider (ok) "list_all (\<lambda>c. c_status c = Success) ?cs"
    | (err) "\<not> list_all (\<lambda>c. c_status c = Success) ?cs" "list_ex (\<lambda>c. c_status c = Error) ?cs"
    | (wait) "\<not> list_all (\<lambda>c. c_status c = Success) ?cs" "\<not> list_ex (\<lambda>c. c_status c = Error) ?cs"
    by blast
  then show ?thesis
  proof cases
    case ok
    then show ?thesis
      by (intro summaryI_task[where t=t and
            xs="[CompleteCall t (completeRequest p (files st ?r) (length ?cs))]"])
         (simp_all add: joinTick_def Let_def assms newOk_def chunksOf_def)
  next
    case err
    then show ?thesis
      by (intro summaryI_task[where t=t and
            xs="[Emit (UploadError ?r ChunksFailed), ConsoleError ChunksFailed,
                 Emit (UploadError ?r ChunksFailed)]"])
         (simp_all add: joinTick_def Let_def assms newOk_def)
  next
    case wait
    then show ?thesis
      by (intro summaryI_quiet[where xs="[]"]) (simp_all add: joinTick_def Let_def)
  qed
qed

lemma mergeResponse_summary:
  assumes "t < nextTask st" "pcOf st t = Merging"
  shows "summary st (mergeResponse p t resp st)"
proof (cases "mergeResult resp")
  case (Inl err)
  show ?thesis
    by (rule summaryI_task[where t=t and
          xs="[Emit (UploadError (t_file (tasks st t)) err), ConsoleError err,
               Emit (UploadError (t_file (tasks st t)) err)]"])
       (simp_all add: mergeResponse_def Let_def Inl assms newOk_def)
next
  case (Inr u)
  let ?r = "t_file (tasks st t)"
  let ?fs = "(files st)(?r := (files st ?r)\<lparr>f_status := Success, f_url := u, f_progress := Number 100\<rparr>)"
  show ?thesis
    by (rule summaryI_task[where t=t and
          xs="[Emit (UploadSuccess ?r u)] @
                      (if list_all (\<lambda>q. terminal (?fs q)) (fileList st)
                       then [Emit (UploadComplete (fileList st))] else [])"])
       (simp_all add: mergeResponse_def Let_def Inr assms newOk_def)
qed

lemma xhr_summaries:
  "summary st (xhrProgress x ev st)"
  "summary st (xhrLoad x code st)"
  "summary st (xhrError x st)"
proof -
  show "summary st (xhrProgress x ev st)"
  proof (cases ev)
    case NotComputable
    then show ?thesis by (auto simp: xhrProgress_def intro: summaryI_quiet[where xs="[]"])
  next
    case (Computable n)
    show ?thesis
      by (rule summaryI_quiet[where xs="[Emit (UploadProgress (x_file (xhrs st x)) (aggregate (map c_progress (chunksOf (updChunk (x_chunks (xhrs st x)) (x_index (xhrs st x)) (\<lambda>c. c\<lparr>c_progress := n\<rparr>) st) (x_file (xhrs st x))))))]"])
         (simp_all add: xhrProgress_def Computable Let_def updateFileProgress_trace noCall_def)
  qed
  show "summary st (xhrLoad x code st)"
    by (rule summaryI_quiet[where xs="[Emit (UploadProgress (x_file (xhrs st x)) (aggregate (map c_progress (chunksOf (updChunk (x_chunks (xhrs st x)) (x_index (xhrs st x)) (\<lambda>c. if 200 \<le> code \<and> code < 300
                    then c\<lparr>c_status := Success, c_progress := 100\<rparr>
                    else c\<lparr>c_status := Error\<rparr>) st) (x_file (xhrs st x))))))]"])
       (simp_all add: xhrLoad_def Let_def updateFileProgress_trace noCall_def)
  show "summary st (xhrError x st)"
    by (rule summaryI_quiet[where xs="[Emit (UploadProgress (x_file (xhrs st x)) (aggregate (map c_progress (chunksOf (updChunk (x_chunks (xhrs st x)) (x_index (xhrs st x)) (\<lambda>c. c\<lparr>c_status := Error\<rparr>) st) (x_file (xhrs st x))))))]"])
       (simp_all add: xhrError_def Let_def updateFileProgress_trace noCall_def)
qed

lemma step_summary:
  assumes "step p e st = Some st'"
  shows "summary st st'"
proof (cases e)
  case (SelectFiles fs)
  then show ?thesis using assms validateAndAddFiles_spawns[of st p fs] spawns_refl[of st]
    by (auto simp: step_def split: if_splits intro: spawns_summary)
next
  case (DropFiles fs)
  then show ?thesis using assms validateAndAddFiles_spawns[of st p fs]
    by (auto simp: step_def intro: spawns_summary)
next
  case (ClickCancel r)
  then show ?thesis using assms
    by (auto simp: step_def split: if_splits intro: summaryI_quiet[where xs="[]"])
next
  case (ClickRetry r)
  then show ?thesis using assms retryUpload_spawns[of st p r]
    by (auto simp: step_def split: if_splits intro: spawns_summary)
next
  case (ClickRemove i)
  then show ?thesis using assms removeFile_spawns[of st i]
    by (auto simp: step_def split: if_splits intro: spawns_summary)
next
  case HostUpload
  then show ?thesis using assms startUpload_spawns[of st p]
    by (auto simp: step_def intro: spawns_summary)
next
  case HostClearFiles
  then show ?thesis using assms
    by (auto simp: step_def intro: summaryI_quiet[where xs="[]"])
next
  case (CreateResponse t resp)
  then show ?thesis using assms
    by (auto simp: step_def split: if_splits intro: createResponse_summary)
next
  case (SlotTick t)
  then show ?thesis using assms
    by (auto simp: step_def split: if_splits intro: slotTick_summary)
next
  case (JoinTick t)
  then show ?thesis using assms
    by (auto simp: step_def split: if_splits intro: joinTick_summary)
next
  case (MergeResponse t resp)
  then show ?thesis using assms
    by (auto simp: step_def split: if_splits intro: mergeResponse_summary)
next
  case (XhrProgress x ev)
  then show ?thesis using assms xhr_summaries(1)[of st x ev]
    by (auto simp: step_def split: if_splits)
next
  case (XhrLoad x code)
  then show ?thesis using assms xhr_summaries(2)[of st x code]
    by (auto simp: step_def split: if_splits)
next
  case (XhrError x)
  then show ?thesis using assms xhr_summaries(3)[of st x]
    by (auto simp: step_def split: if_splits)
qed


subsection \<open>Invariants of runs\<close>

lemma oldOk_summary:
  assumes "summary st st'" "oldOk st e"
  shows "oldOk st' e"
proof (cases e)
  case (CreateCall t q)
  then show ?thesis using assms by (auto simp: oldOk_def summary_def)
next
  case (ChunkCall t x q)
  then have t: "t < nextTask st" "pcOf st t \<noteq> AwaitCreate" "pcOf st t \<noteq> Done CreateFailed"
    using assms(2) by (simp_all add: oldOk_def)
  have "pcOf st' t = pcOf st t \<or> edge (pcOf st t) (pcOf st' t)"
    using assms(1) t(1) by (simp add: summary_def)
  then have "pcOf st' t \<noteq> AwaitCreate \<and> pcOf st' t \<noteq> Done CreateFailed"
    using t(2,3) by (cases "pcOf st t") auto
  moreover have "t < nextTask st'" using assms(1) t(1) by (simp add: summary_def)
  ultimately show ?thesis using ChunkCall by (simp add: oldOk_def)
next
  case (CompleteCall t q)
  then have t: "t < nextTask st"
      "pcOf st t = Merging \<or> pcOf st t = Done MergeFailed \<or> pcOf st t = Done Merged"
    using assms(2) by (simp_all add: oldOk_def)
  have "pcOf st' t = pcOf st t \<or> edge (pcOf st t) (pcOf st' t)"
    using assms(1) t(1) by (simp add: summary_def)
  then have "pcOf st' t = Merging \<or> pcOf st' t = Done MergeFailed \<or> pcOf st' t = Done Merged"
    using t(2) by auto
  moreover have "t < nextTask st'" using assms(1) t(1) by (simp add: summary_def)
  ultimately show ?thesis using CompleteCall by (simp add: oldOk_def)
qed (simp_all add: oldOk_def)

lemma newOk_oldOk:
  assumes "summary st st'" "newOk st st' e"
  shows "oldOk st' e"
proof -
  have "nextTask st \<le> nextTask st'" using assms(1) by (simp add: summary_def)
  then show ?thesis using assms(2) by (cases e) (auto simp: oldOk_def newOk_def)
qed

lemma traceInv_summary:
  assumes "traceInv st" "summary st st'"
  shows "traceInv st'"
proof -
  from assms(2) obtain xs where xs: "trace st' = trace st @ xs" "\<forall>e\<in>set xs. newOk st st' e"
    by (auto simp: summary_def)
  have "\<forall>e\<in>set (trace st). oldOk st' e"
    using assms by (auto simp: traceInv_def list_all_iff intro: oldOk_summary)
  moreover have "\<forall>e\<in>set xs. oldOk st' e"
    using xs(2) assms(2) by (auto intro: newOk_oldOk)
  ultimately show ?thesis by (auto simp: traceInv_def list_all_iff xs(1))
qed

lemma traceInv_initial: "traceInv initialState"
  by (simp add: traceInv_def initialState_def)

lemma run_traceInv:
  "traceInv st \<Longrightarrow> run p es st = Some st' \<Longrightarrow> traceInv st'"
proof (induction es arbitrary: st)
  case Nil
  then show ?case by simp
next
  case (Cons e es)
  from Cons.prems(2) obtain s where s: "step p e st = Some s" "run p es s = Some st'"
    by (auto split: option.splits)
  have "traceInv s" using Cons.prems(1) step_summary[OF s(1)] by (rule traceInv_summary)
  then show ?case using s(2) by (rule Cons.IH)
qed

lemma reachable_traceInv: "run p es initialState = Some st \<Longrightarrow> traceInv st"
  using traceInv_initial by (rule run_traceInv)

lemma run_done:
  "t < nextTask st \<Longrightarrow> pcOf st t = Done out \<Longrightarrow> run p es st = Some st'
   \<Longrightarrow> t < nextTask st' \<and> pcOf st' t = Done out"
proof (induction es arbitrary: st)
  case Nil
  then show ?case by simp
next
  case (Cons e es)
  from Cons.prems(3) obtain s where s: "step p e st = Some s" "run p es s = Some st'"
    by (auto split: option.splits)
  have sm: "summary st s" using s(1) by (rule step_summary)
  then have "pcOf s t = pcOf st t \<or> edge (pcOf st t) (pcOf s t)" "nextTask st \<le> nextTask s"
    using Cons.prems(1) by (simp_all add: summary_def)
  then have "t < nextTask s" "pcOf s t = Done out" using Cons.prems(1,2) by auto
  then show ?case using s(2) by (rule Cons.IH)
qed

lemma run_trace_prefix:
  "run p es st = Some st' \<Longrightarrow> \<exists>xs. trace st' = trace st @ xs"
proof (induction es arbitrary: st)
  case Nil
  then show ?case by simp
next
  case (Cons e es)
  from Cons.prems obtain s where s: "step p e st = Some s" "run p es s = Some st'"
    by (auto split: option.splits)
  from step_summary[OF s(1)] obtain xs where "trace s = trace st @ xs" by (auto simp: summary_def)
  moreover from Cons.IH[OF s(2)] obtain ys where "trace st' = trace s @ ys" by blast
  ultimately show ?case by simp
qed

lemma traceInv_chunk:
  "traceInv st \<Longrightarrow> ChunkCall t x q \<in> set (trace st)
   \<Longrightarrow> t < nextTask st \<and> pcOf st t \<noteq> AwaitCreate \<and> pcOf st t \<noteq> Done CreateFailed"
  by (auto simp: traceInv_def list_all_iff oldOk_def)

lemma traceInv_complete:
  "traceInv st \<Longrightarrow> CompleteCall t q \<in> set (trace st)
   \<Longrightarrow> t < nextTask st \<and> (pcOf st t = Merging \<or> pcOf st t = Done MergeFailed \<or> pcOf st t = Done Merged)"
  by (auto simp: traceInv_def list_all_iff oldOk_def)

section \<open>Evaluating the examples\<close>

lemmas demo_defs = validateAndAddFiles_def addFile_def startUpload_def uploadFile_def
  uploadChunks_def finish_def Let_def initialState_def demoProps_def demoFile_def
  demoQueued_def demoUploading_def

lemmas async_defs = createResponse_def createResult_def loopBody_def uploadChunk_def updChunk_def
  suspend_def planChunks_def chunkCount_def calculateFileIdentifier_def identifierKey_def
  jsString_def xhrLoad_def xhrError_def xhrProgress_def settle_def updateFileProgress_def
  aggregate_def upt_rec chunksOf_def

lemma issued_append: "trace st' = trace st @ xs \<Longrightarrow> issued st st' = xs"
  by (simp add: issued_def)

lemmas eval_defs = demo_defs async_defs joinTick_def cancelUpload_def abort_def retryUpload_def
  demoFailed_def smallProps_def smallFile_def isUploadError_def completeCalls_def

lemma demoFailed_reached:
  "step demoProps (SelectFiles [demoFile]) initialState = Some demoQueued"
  "step demoProps (CreateResponse 0 (Http 200 (Some (Some ''u1'')))) demoQueued = Some demoUploading"
  "step demoProps (XhrLoad 0 200) demoUploading = Some (xhrLoad 0 200 demoUploading)"
  "step demoProps (XhrLoad 1 500) (xhrLoad 0 200 demoUploading)
     = Some (xhrLoad 1 500 (xhrLoad 0 200 demoUploading))"
  "step demoProps (JoinTick 0) (xhrLoad 1 500 (xhrLoad 0 200 demoUploading)) = Some demoFailed"
  by (simp_all add: step_def eval_defs)

section \<open>Failure of the create call\<close>

lemma create_rejected_ends_task:
  assumes "run p es initialState = Some st"
      and "step p (CreateResponse t resp) st = Some st'"
      and "createResult resp = Inl err"
  shows "f_status (files st' (t_file (tasks st t))) = Error
       \<and> pcOf st' t = Done CreateFailed
       \<and> trace st' = trace st @ [ConsoleError err, Emit (UploadError (t_file (tasks st t)) err)]
       \<and> (\<forall>x q. ChunkCall t x q \<notin> set (trace st'))
       \<and> (\<forall>es' st''. run p es' st' = Some st'' \<longrightarrow> (\<forall>x q. ChunkCall t x q \<notin> set (trace st'')))"
proof -
  from assms(2) have en: "t < nextTask st" "pcOf st t = AwaitCreate"
    and st': "st' = createResponse p t resp st"
    by (auto simp: step_def split: if_splits)
  have A: "f_status (files st' (t_file (tasks st t))) = Error"
    by (simp add: st' createResponse_def Let_def assms(3))
  have B: "trace st' = trace st @ [ConsoleError err, Emit (UploadError (t_file (tasks st t)) err)]"
    by (simp add: st' createResponse_def Let_def assms(3))
  have dn: "t < nextTask st'" "pcOf st' t = Done CreateFailed"
    using en by (simp_all add: st' createResponse_def Let_def assms(3))
  have inv: "traceInv st'"
    using reachable_traceInv[OF assms(1)] step_summary[OF assms(2)] by (rule traceInv_summary)
  have D: "\<forall>es' st''. run p es' st' = Some st'' \<longrightarrow> (\<forall>x q. ChunkCall t x q \<notin> set (trace st''))"
  proof (intro allI impI)
    fix es' st'' x q assume r: "run p es' st' = Some st''"
    have "traceInv st''" using inv r by (rule run_traceInv)
    moreover have "pcOf st'' t = Done CreateFailed" using run_done[OF dn r] by simp
    ultimately show "ChunkCall t x q \<notin> set (trace st'')" using traceInv_chunk by blast
  qed
  have C: "\<forall>x q. ChunkCall t x q \<notin> set (trace st')"
    using inv dn traceInv_chunk by blast
  from A dn(2) B C D show ?thesis by blast
qed

text \<open>
  C6. In a state reached by a run, when the reply to the create call of a task is a
  transport error (the \<open>fetch\<close> is rejected) or a response whose status is not 2xx, the
  entry gets the status \<open>error\<close>, the task returns, the step adds the console message and
  one \<open>upload-error\<close> event (carrying the failure) to the trace, and no chunk call of that
  task is in the trace then or after any further run: no chunk transfer is attempted for
  that attempt.
\<close>

theorem create_failure_is_fatal:
  assumes "run p es initialState = Some st"
      and "step p (CreateResponse t resp) st = Some st'"
      and "resp = TransportError
           \<or> (\<exists>code body. resp = Http code body \<and> \<not> (200 \<le> code \<and> code \<le> 299))"
  shows "f_status (files st' (t_file (tasks st t))) = Error
       \<and> pcOf st' t = Done CreateFailed
       \<and> trace st' = trace st @
           [ConsoleError (case resp of TransportError \<Rightarrow> FetchRejected
                                     | Http code body \<Rightarrow> CreateStatus code),
            Emit (UploadError (t_file (tasks st t))
                    (case resp of TransportError \<Rightarrow> FetchRejected
                                | Http code body \<Rightarrow> CreateStatus code))]
       \<and> (\<forall>x q. ChunkCall t x q \<notin> set (trace st'))
       \<and> (\<forall>es' st''. run p es' st' = Some st'' \<longrightarrow> (\<forall>x q. ChunkCall t x q \<notin> set (trace st'')))"
proof -
  have "createResult resp =
          Inl (case resp of TransportError \<Rightarrow> FetchRejected | Http code body \<Rightarrow> CreateStatus code)"
    using assms(3) by (auto simp: createResult_def)
  from create_rejected_ends_task[OF assms(1,2) this] show ?thesis .
qed

theorem create_failure_is_fatal_witness:
  "\<exists>st st'. run demoProps [SelectFiles [demoFile]] initialState = Some st
     \<and> step demoProps (CreateResponse 0 (Http 500 None)) st = Some st'
     \<and> \<not> (200 \<le> (500::nat) \<and> (500::nat) \<le> 299)
     \<and> f_status (files st' 0) = Error
     \<and> trace st' = trace st @ [ConsoleError (CreateStatus 500), Emit (UploadError 0 (CreateStatus 500))]
     \<and> (\<forall>es' st''. run demoProps es' st' = Some st'' \<longrightarrow> (\<forall>x q. ChunkCall 0 x q \<notin> set (trace st'')))"
proof -
  let ?st' = "createResponse demoProps 0 (Http 500 None) demoQueued"
  have r: "run demoProps [SelectFiles [demoFile]] initialState = Some demoQueued"
    by (simp only: run.simps demoFailed_reached(1) option.simps)
  have en: "nextTask demoQueued = 1 \<and> pcOf demoQueued 0 = AwaitCreate \<and> t_file (tasks demoQueued 0) = 0"
    by (simp add: demo_defs)
  have s: "step demoProps (CreateResponse 0 (Http 500 None)) demoQueued = Some ?st'"
    using en by (simp add: step_def)
  have c: "Http 500 None = TransportError
           \<or> (\<exists>code body. Http 500 None = Http code body \<and> \<not> (200 \<le> code \<and> code \<le> 299))"
    by simp
  show ?thesis
    using create_failure_is_fatal[OF r s c] r s en by auto
qed

section \<open>The join before the merge\<close>

text \<open>
  What the join check guarantees: a step issues a complete call only when every chunk of
  \<open>file.chunks\<close>, as the entry holds it at that moment, has the status \<open>success\<close>; and a
  join check that finds a chunk with the status \<open>error\<close> there fails the entry, emits
  \<open>upload-error\<close> and ends its task, whose complete call is then never issued.
\<close>

lemma join_check_guards_merge:
  assumes "run p es initialState = Some st" and "step p e st = Some st'"
  shows "(\<forall>t q. CompleteCall t q \<in> set (issued st st') \<longrightarrow>
            list_all (\<lambda>c. c_status c = Success) (chunksOf st (t_file (tasks st t))))
       \<and> (\<forall>t. e = JoinTick t \<and> list_ex (\<lambda>c. c_status c = Error) (chunksOf st (t_file (tasks st t))) \<longrightarrow>
              f_status (files st' (t_file (tasks st t))) = Error
            \<and> Emit (UploadError (t_file (tasks st t)) ChunksFailed) \<in> set (issued st st')
            \<and> (\<forall>q. CompleteCall t q \<notin> set (trace st'))
            \<and> (\<forall>es' st''. run p es' st' = Some st'' \<longrightarrow> (\<forall>q. CompleteCall t q \<notin> set (trace st''))))"
proof -
  have A: "\<forall>t q. CompleteCall t q \<in> set (issued st st') \<longrightarrow>
            list_all (\<lambda>c. c_status c = Success) (chunksOf st (t_file (tasks st t)))"
  proof (intro allI impI)
    fix t q assume c: "CompleteCall t q \<in> set (issued st st')"
    from step_summary[OF assms(2)] obtain xs where
      xs: "trace st' = trace st @ xs" "\<forall>e\<in>set xs. newOk st st' e" by (auto simp: summary_def)
    from c xs(1) have "CompleteCall t q \<in> set xs" by (simp add: issued_append)
    with xs(2) have "newOk st st' (CompleteCall t q)" by blast
    then show "list_all (\<lambda>c. c_status c = Success) (chunksOf st (t_file (tasks st t)))"
      by (simp add: newOk_def)
  qed
  have B: "\<forall>t. e = JoinTick t \<and> list_ex (\<lambda>c. c_status c = Error) (chunksOf st (t_file (tasks st t))) \<longrightarrow>
              f_status (files st' (t_file (tasks st t))) = Error
            \<and> Emit (UploadError (t_file (tasks st t)) ChunksFailed) \<in> set (issued st st')
            \<and> (\<forall>q. CompleteCall t q \<notin> set (trace st'))
            \<and> (\<forall>es' st''. run p es' st' = Some st'' \<longrightarrow> (\<forall>q. CompleteCall t q \<notin> set (trace st'')))"
  proof (intro allI impI)
    fix t
    assume a: "e = JoinTick t \<and> list_ex (\<lambda>c. c_status c = Error) (chunksOf st (t_file (tasks st t)))"
    let ?r = "t_file (tasks st t)"
    from a assms(2) have en: "t < nextTask st" "pcOf st t = Joining" and st': "st' = joinTick p t st"
      by (auto simp: step_def split: if_splits)
    from a have err: "list_ex (\<lambda>c. c_status c = Error) (arrays st (f_chunks (files st ?r)))"
      by (simp add: chunksOf_def)
    then have nall: "\<not> list_all (\<lambda>c. c_status c = Success) (arrays st (f_chunks (files st ?r)))"
      by (fastforce simp: list_all_iff list_ex_iff)
    have B1: "f_status (files st' ?r) = Error"
      using err nall by (simp add: st' joinTick_def Let_def)
    have tr: "trace st' = trace st @ [Emit (UploadError ?r ChunksFailed), ConsoleError ChunksFailed,
                                      Emit (UploadError ?r ChunksFailed)]"
      using err nall by (simp add: st' joinTick_def Let_def)
    have B2: "Emit (UploadError ?r ChunksFailed) \<in> set (issued st st')"
      by (simp add: issued_append[OF tr])
    have dn: "t < nextTask st'" "pcOf st' t = Done JoinFailed"
      using en err nall by (simp_all add: st' joinTick_def Let_def)
    have inv: "traceInv st'"
      using reachable_traceInv[OF assms(1)] step_summary[OF assms(2)] by (rule traceInv_summary)
    have B3: "\<forall>q. CompleteCall t q \<notin> set (trace st')"
      using traceInv_complete[OF inv] dn by fastforce
    have B4: "\<forall>es' st''. run p es' st' = Some st'' \<longrightarrow> (\<forall>q. CompleteCall t q \<notin> set (trace st''))"
    proof (intro allI impI)
      fix es' st'' q assume r: "run p es' st' = Some st''"
      have i2: "traceInv st''" using inv r by (rule run_traceInv)
      have "pcOf st'' t = Done JoinFailed" using run_done[OF dn r] by simp
      then show "CompleteCall t q \<notin> set (trace st'')" using traceInv_complete[OF i2] by fastforce
    qed
    from B1 B2 B3 B4 show "f_status (files st' ?r) = Error
            \<and> Emit (UploadError ?r ChunksFailed) \<in> set (issued st st')
            \<and> (\<forall>q. CompleteCall t q \<notin> set (trace st'))
            \<and> (\<forall>es' st''. run p es' st' = Some st'' \<longrightarrow> (\<forall>q. CompleteCall t q \<notin> set (trace st'')))"
      by blast
  qed
  from A B show ?thesis by blast
qed

text \<open>
  C2 fails on the code. The interval of \<open>checkAllChunksUploaded\<close> is cleared only by its own
  two branches, and each firing reads \<open>file.chunks\<close> anew. In the run below the second of
  three chunks of the first attempt is answered with status 500; before the interval fires
  the user clicks cancel and then retry (the two buttons share one place in the template),
  which replaces \<open>file.chunks\<close>; the three chunks of the second attempt are accepted. At
  that point the first task still waits in its join check, the chunks of its attempt are
  uploading, error and uploading, and no complete call and no \<open>upload-error\<close> event is in
  the trace. Then the interval of the first attempt fires: it finds \<open>file.chunks\<close> all
  successful and issues the complete call, still without any \<open>upload-error\<close> event.
\<close>

theorem stale_join_issues_complete:
  "map_option
     (\<lambda>s. (pcOf s 0, map c_status (arrays s (t_chunks (tasks s 0))), map c_status (chunksOf s 0),
           f_status (files s 0), filter isUploadError (trace s), completeCalls (trace s)))
     (run smallProps
        [SelectFiles [smallFile], CreateResponse 0 (Http 200 (Some (Some ''u1''))), XhrLoad 1 500,
         ClickCancel 0, ClickRetry 0, CreateResponse 1 (Http 200 (Some (Some ''u2''))),
         XhrLoad 3 200, XhrLoad 4 200, XhrLoad 5 200] initialState)
     = Some (Joining, [Uploading, Error, Uploading], [Success, Success, Success], Uploading, [], [])
   \<and> map_option
     (\<lambda>s. (pcOf s 0, map c_status (arrays s (t_chunks (tasks s 0))),
           filter isUploadError (trace s), completeCalls (trace s)))
     (run smallProps
        [SelectFiles [smallFile], CreateResponse 0 (Http 200 (Some (Some ''u1''))), XhrLoad 1 500,
         ClickCancel 0, ClickRetry 0, CreateResponse 1 (Http 200 (Some (Some ''u2''))),
         XhrLoad 3 200, XhrLoad 4 200, XhrLoad 5 200, JoinTick 0] initialState)
     = Some (Merging, [Uploading, Error, Uploading], [], [0])"
  by (simp add: step_def eval_defs)

section \<open>Retry\<close>

lemma planChunks_fresh: "list_all (\<lambda>c. c_status c = Waiting \<and> c_progress c = 0) (planChunks s c)"
  by (simp add: planChunks_def list_all_iff)

lemma retryUpload_result:
  assumes "0 < p_chunkSize p"
  shows "chunksOf (finish (retryUpload p r st)) r = planChunks (f_size (files st r)) (p_chunkSize p * 1024 * 1024)"
    and "f_progress (files (finish (retryUpload p r st)) r) = Number 0"
    and "\<exists>q. trace (finish (retryUpload p r st)) = trace st @ [CreateCall (nextTask st) q]"
    and "pcOf (finish (retryUpload p r st)) (nextTask st) = AwaitCreate"
    and "t_file (tasks (finish (retryUpload p r st)) (nextTask st)) = r"
  using assms
  by (simp_all add: retryUpload_def uploadFile_def uploadChunks_def finish_def Let_def chunksOf_def)

text \<open>
  C5. In a state reached by a run, with a chunk size above zero, a click on the retry button
  of an errored entry leaves the entry with the chunk plan of its size (\<open>planChunks\<close>, the
  \<open>\<lceil>size / chunkSize\<rceil>\<close> chunks of C1), every chunk of it with the status \<open>waiting\<close> and
  progress 0, and the entry with progress 0, and issues the create call of a new task as the
  only effect. No chunk call of that task is in the trace before, and the trace only grows
  afterwards, so every chunk call of the new attempt comes after its create call.
\<close>

theorem retry_restarts_from_create:
  assumes "run p es initialState = Some st"
      and "step p (ClickRetry r) st = Some st'"
      and "0 < p_chunkSize p"
  shows "chunksOf st' r = planChunks (f_size (files st r)) (p_chunkSize p * 1024 * 1024)
       \<and> f_size (files st' r) = f_size (files st r)
       \<and> list_all (\<lambda>c. c_status c = Waiting \<and> c_progress c = 0) (chunksOf st' r)
       \<and> f_progress (files st' r) = Number 0
       \<and> (\<exists>q. trace st' = trace st @ [CreateCall (nextTask st) q])
       \<and> pcOf st' (nextTask st) = AwaitCreate \<and> t_file (tasks st' (nextTask st)) = r
       \<and> (\<forall>x q. ChunkCall (nextTask st) x q \<notin> set (trace st))
       \<and> (\<forall>es' st''. run p es' st' = Some st'' \<longrightarrow>
             (\<exists>q later. trace st'' = trace st @ CreateCall (nextTask st) q # later))"
proof -
  from assms(2) have st': "st' = finish (retryUpload p r st)"
    by (auto simp: step_def split: if_splits)
  have P: "chunksOf st' r = planChunks (f_size (files st r)) (p_chunkSize p * 1024 * 1024)"
    by (simp add: st' retryUpload_result(1)[OF assms(3)])
  have S: "f_size (files st' r) = f_size (files st r)"
    using assms(3)
    by (simp add: st' retryUpload_def uploadFile_def uploadChunks_def finish_def Let_def)
  have A: "list_all (\<lambda>c. c_status c = Waiting \<and> c_progress c = 0) (chunksOf st' r)"
    by (simp add: P planChunks_fresh)
  have B: "f_progress (files st' r) = Number 0"
    by (simp add: st' retryUpload_result(2)[OF assms(3)])
  obtain q where q: "trace st' = trace st @ [CreateCall (nextTask st) q]"
    using retryUpload_result(3)[OF assms(3), of r st] by (auto simp: st')
  have D: "pcOf st' (nextTask st) = AwaitCreate \<and> t_file (tasks st' (nextTask st)) = r"
    by (simp add: st' retryUpload_result(4,5)[OF assms(3)])
  have E: "\<forall>x q. ChunkCall (nextTask st) x q \<notin> set (trace st)"
    using traceInv_chunk[OF reachable_traceInv[OF assms(1)]] by fastforce
  have F: "\<forall>es' st''. run p es' st' = Some st'' \<longrightarrow>
             (\<exists>q later. trace st'' = trace st @ CreateCall (nextTask st) q # later)"
  proof (intro allI impI)
    fix es' st'' assume "run p es' st' = Some st''"
    then obtain xs where "trace st'' = trace st' @ xs" using run_trace_prefix by blast
    with q have "trace st'' = trace st @ CreateCall (nextTask st) q # xs" by simp
    then show "\<exists>q later. trace st'' = trace st @ CreateCall (nextTask st) q # later" by blast
  qed
  from P S A B q D E F show ?thesis by blast
qed

lemma demoFailed_facts:
  "fileList demoFailed = [0]"
  "f_status (files demoFailed 0) = Error"
  "f_progress (files demoFailed 0) = Number 33"
  "f_size (files demoFailed 0) = 12582912"
  "nextTask demoFailed = 1"
  "map (\<lambda>c. (c_status c, c_progress c)) (chunksOf demoFailed 0)
     = [(Success, 100), (Error, 0), (Uploading, 0)]"
  by (simp_all add: eval_defs)

theorem retry_restarts_from_create_witness:
  "\<exists>st st'. run demoProps [SelectFiles [demoFile], CreateResponse 0 (Http 200 (Some (Some ''u1''))),
                            XhrLoad 0 200, XhrLoad 1 500, JoinTick 0] initialState = Some st
     \<and> step demoProps (ClickRetry 0) st = Some st'
     \<and> 0 < p_chunkSize demoProps
     \<and> f_status (files st 0) = Error
     \<and> f_progress (files st 0) = Number 33
     \<and> map (\<lambda>c. (c_status c, c_progress c)) (chunksOf st 0)
          = [(Success, 100), (Error, 0), (Uploading, 0)]
     \<and> map (\<lambda>c. (c_index c, c_start c, c_end c, c_status c, c_progress c)) (chunksOf st' 0)
          = [(0, 0, 5242880, Waiting, 0), (1, 5242880, 10485760, Waiting, 0),
             (2, 10485760, 12582912, Waiting, 0)]
     \<and> f_progress (files st' 0) = Number 0
     \<and> (\<exists>q. trace st' = trace st @ [CreateCall 1 q])"
proof -
  let ?st' = "finish (retryUpload demoProps 0 demoFailed)"
  have r: "run demoProps [SelectFiles [demoFile], CreateResponse 0 (Http 200 (Some (Some ''u1''))),
                            XhrLoad 0 200, XhrLoad 1 500, JoinTick 0] initialState = Some demoFailed"
    by (simp only: run.simps demoFailed_reached option.simps)
  have s: "step demoProps (ClickRetry 0) demoFailed = Some ?st'"
    using demoFailed_facts(1,2) by (simp add: step_def)
  have c: "0 < p_chunkSize demoProps" by (simp add: demoProps_def)
  have pl: "map (\<lambda>c. (c_index c, c_start c, c_end c, c_status c, c_progress c))
              (planChunks 12582912 (p_chunkSize demoProps * 1024 * 1024))
          = [(0, 0, 5242880, Waiting, 0), (1, 5242880, 10485760, Waiting, 0),
             (2, 10485760, 12582912, Waiting, 0)]"
    by (simp add: planChunks_def chunkCount_def demoProps_def upt_rec)
  show ?thesis
    using retry_restarts_from_create[OF r s c] r s c demoFailed_facts pl by auto
qed

section \<open>Cancel\<close>

lemma fold_abort_xhrs:
  "x_state (xhrs (fold abort l st) x) =
     (if x \<in> set l \<and> x_state (xhrs st x) = Pending then Aborted else x_state (xhrs st x))"
  by (induction l arbitrary: st) (auto simp: abort_def)

text \<open>
  C3. \<open>cancelUpload\<close> on an entry with the status \<open>uploading\<close> calls \<open>abort\<close> on every
  request registered under the entry's identifier (afterwards none of them is in flight, and
  the requests in flight that it ends are exactly the registered ones), leaves the registry
  with no request under that identifier, and sets the entry to the status \<open>error\<close> with
  progress 0.
\<close>

theorem cancel_aborts_and_clears:
  assumes "f_status (files st r) = Uploading"
  shows "let key = identifierKey (files st r); st' = cancelUpload r st in
           (\<forall>x\<in>set (registered st key). x_state (xhrs st' x) \<noteq> Pending)
         \<and> (\<forall>x. x_state (xhrs st' x) =
                (if x \<in> set (registered st key) \<and> x_state (xhrs st x) = Pending
                 then Aborted else x_state (xhrs st x)))
         \<and> registered st' key = []
         \<and> identifierKey (files st' r) = key
         \<and> f_status (files st' r) = Error
         \<and> f_progress (files st' r) = Number 0"
proof (cases "activeRequests st (identifierKey (files st r))")
  case None
  then show ?thesis using assms
    by (simp add: cancelUpload_def Let_def registered_def identifierKey_def)
next
  case (Some l)
  then show ?thesis using assms
    by (simp add: cancelUpload_def Let_def registered_def identifierKey_def fold_abort_xhrs)
qed

theorem cancel_aborts_and_clears_witness:
  "f_status (files demoUploading 0) = Uploading
   \<and> registered demoUploading (identifierKey (files demoUploading 0)) = [0, 1, 2]
   \<and> x_state (xhrs demoUploading 1) = Pending
   \<and> x_state (xhrs (cancelUpload 0 demoUploading) 1) = Aborted
   \<and> registered (cancelUpload 0 demoUploading) (identifierKey (files demoUploading 0)) = []
   \<and> f_status (files (cancelUpload 0 demoUploading) 0) = Error
   \<and> f_progress (files (cancelUpload 0 demoUploading) 0) = Number 0"
proof -
  have e: "f_status (files demoUploading 0) = Uploading
     \<and> registered demoUploading (identifierKey (files demoUploading 0)) = [0, 1, 2]
     \<and> x_state (xhrs demoUploading 1) = Pending"
    by (simp add: demo_defs async_defs registered_def)
  then have u: "f_status (files demoUploading 0) = Uploading" by simp
  show ?thesis
    using cancel_aborts_and_clears[OF u] e by (simp add: Let_def)
qed

section \<open>A file of size zero\<close>

lemma string_of_nat_0: "string_of_nat 0 = ''0''"
  by (simp add: string_of_nat.simps[of 0] char_of_def bit_iff_odd)

lemma chunkCount_0: "0 < c \<Longrightarrow> chunkCount 0 c = 0"
  by (simp add: chunkCount_def)

text \<open>
  C10. For an entry of size 0 and a chunk size above zero, \<open>uploadFile\<close> builds an empty
  chunk list and issues the create call with \<open>chunks\<close> = 0; when the create call succeeds
  the loop dispatches nothing, and the first join check issues the complete call with
  \<open>total_chunks\<close> = 0: the trace of the session is the create call followed by the complete
  call, with no chunk call.
\<close>

theorem empty_file_goes_to_merge:
  assumes "f_size (files st r) = 0" and "0 < p_chunkSize p" and "createResult resp = Inr uid"
  shows "\<exists>st1 st2 st3 q1 q2.
           uploadFile p r st = Returned st1 \<and> chunksOf st1 r = []
         \<and> step p (CreateResponse (nextTask st) resp) st1 = Some st2
         \<and> step p (JoinTick (nextTask st)) st2 = Some st3
         \<and> trace st3 = trace st @ [CreateCall (nextTask st) q1, CompleteCall (nextTask st) q2]
         \<and> (''chunks'', Text ''0'') \<in> set (q_form q1)
         \<and> (''total_chunks'', Text ''0'') \<in> set (q_form q2)
         \<and> pcOf st3 (nextTask st) = Merging"
proof -
  let ?t = "nextTask st"
  let ?st1 = "finish (uploadFile p r st)"
  let ?st2 = "createResponse p ?t resp ?st1"
  let ?st3 = "joinTick p ?t ?st2"
  have c0: "planChunks 0 (p_chunkSize p * 1024 * 1024) = []"
    using assms(2) by (simp add: planChunks_def chunkCount_0)
  have u: "uploadFile p r st = Returned ?st1"
    using assms(2) by (simp add: uploadFile_def finish_def Let_def)
  have f1: "chunksOf ?st1 r = []" "nextTask ?st1 = Suc ?t" "pcOf ?st1 ?t = AwaitCreate"
    "t_file (tasks ?st1 ?t) = r"
    "trace ?st1 = trace st @ [CreateCall ?t (createRequest p (files ?st1 r) 0)]"
    using assms(1,2) c0
    by (simp_all add: uploadFile_def finish_def Let_def uploadChunks_def chunksOf_def)
  have s1: "step p (CreateResponse ?t resp) ?st1 = Some ?st2"
    using f1 by (simp add: step_def)
  have arr: "arrays ?st1 (f_chunks (files ?st1 r)) = []" using f1(1) by (simp add: chunksOf_def)
  have f2: "nextTask ?st2 = Suc ?t" "pcOf ?st2 ?t = Joining" "t_file (tasks ?st2 ?t) = r"
    "trace ?st2 = trace ?st1" "chunksOf ?st2 r = []"
    using f1(2,4) arr assms(3)
    by (simp_all add: createResponse_def Let_def suspend_def chunksOf_def)
  have s2: "step p (JoinTick ?t) ?st2 = Some ?st3"
    using f2 by (simp add: step_def)
  have arr2: "arrays ?st2 (f_chunks (files ?st2 r)) = []" using f2(5) by (simp add: chunksOf_def)
  have f3: "trace ?st3 = trace ?st2 @ [CompleteCall ?t (completeRequest p (files ?st2 r) 0)]"
    "pcOf ?st3 ?t = Merging"
    using f2(3) arr2 by (simp_all add: joinTick_def Let_def)
  have q1: "(''chunks'', Text ''0'') \<in> set (q_form (createRequest p (files ?st1 r) 0))"
    by (simp add: createRequest_def string_of_nat_0)
  have q2: "(''total_chunks'', Text ''0'') \<in> set (q_form (completeRequest p (files ?st2 r) 0))"
    by (simp add: completeRequest_def string_of_nat_0)
  have tr: "trace ?st3 = trace st @ [CreateCall ?t (createRequest p (files ?st1 r) 0),
                                     CompleteCall ?t (completeRequest p (files ?st2 r) 0)]"
    using f1(5) f2(4) f3(1) by simp
  from u f1(1) s1 s2 tr q1 q2 f3(2) show ?thesis by blast
qed

theorem empty_file_goes_to_merge_witness:
  "f_size (files (addFile demoProps (demoFile\<lparr>r_size := 0\<rparr>) initialState) 0) = 0
   \<and> 0 < p_chunkSize demoProps
   \<and> createResult (Http 200 (Some (Some ''u1''))) = Inr (Some ''u1'')
   \<and> (\<exists>st1 st2 st3 q1 q2.
           uploadFile demoProps 0 (addFile demoProps (demoFile\<lparr>r_size := 0\<rparr>) initialState)
             = Returned st1 \<and> chunksOf st1 0 = []
         \<and> step demoProps (CreateResponse 0 (Http 200 (Some (Some ''u1'')))) st1 = Some st2
         \<and> step demoProps (JoinTick 0) st2 = Some st3
         \<and> trace st3 = [CreateCall 0 q1, CompleteCall 0 q2]
         \<and> (''chunks'', Text ''0'') \<in> set (q_form q1)
         \<and> (''total_chunks'', Text ''0'') \<in> set (q_form q2))"
proof -
  let ?st = "addFile demoProps (demoFile\<lparr>r_size := 0\<rparr>) initialState"
  have e: "f_size (files ?st 0) = 0 \<and> nextTask ?st = 0 \<and> trace ?st = []"
    by (simp add: demo_defs)
  then have a: "f_size (files ?st 0) = 0" by simp
  have b: "0 < p_chunkSize demoProps" by (simp add: demoProps_def)
  have c: "createResult (Http 200 (Some (Some ''u1''))) = Inr (Some ''u1'')"
    by (simp add: createResult_def)
  show ?thesis
    using empty_file_goes_to_merge[OF a b c] a b c e by auto
qed

section \<open>Progress of a file\<close>

lemma aggregate_rounds:
  assumes "ps \<noteq> []"
  shows "aggregate ps = Number (nat \<lfloor>arithmeticMean ps + 1 / 2\<rfloor>)"
proof -
  let ?n = "length ps" and ?s = "sum_list ps"
  have n: "0 < ?n" using assms by simp
  have "arithmeticMean ps + 1 / 2 = real (2 * ?s + ?n) / real (2 * ?n)"
    using n by (simp add: arithmeticMean_def field_simps)
  then have "\<lfloor>arithmeticMean ps + 1 / 2\<rfloor> = int ((2 * ?s + ?n) div (2 * ?n))"
    by (simp only: floor_divide_of_nat_eq)
  then show ?thesis using assms by (simp add: aggregate_def)
qed

lemma chunksOf_updateFileProgress [simp]:
  "chunksOf (updateFileProgress r st) r' = chunksOf st r'"
  by (simp add: chunksOf_def updateFileProgress_def Let_def)

lemma updateFileProgress_progress:
  "f_progress (files (updateFileProgress r st) r) = aggregate (map c_progress (chunksOf st r))"
  by (simp add: updateFileProgress_def Let_def chunksOf_def)

lemma chunksOf_updChunk_length:
  "length (chunksOf (updChunk a i g st) r) = length (chunksOf st r)"
  by (simp add: chunksOf_def updChunk_def)

lemma demoUploading_facts:
  "nextXhr demoUploading = 3"
  "x_state (xhrs demoUploading 0) = Pending"
  "x_file (xhrs demoUploading 0) = 0"
  "map c_progress (chunksOf demoUploading 0) = [0, 0, 0]"
  by (simp_all add: demo_defs async_defs)

text \<open>
  C7, as the spec states it, fails: the progress of the entry is the mean rounded by
  \<open>Math.round\<close>, and a progress event without a computable length recomputes and emits
  nothing. After a tick of 50 percent on the first of three chunks the entry shows 17, while
  the mean is \<open>50 / 3\<close>.
\<close>

theorem progress_is_rounded_mean_counterexample:
  "map c_progress (chunksOf (xhrProgress 0 (Computable 50) demoUploading) 0) = [50, 0, 0]
   \<and> f_progress (files (xhrProgress 0 (Computable 50) demoUploading) 0) = Number 17
   \<and> arithmeticMean [50, 0, 0] = 50 / 3
   \<and> real 17 \<noteq> arithmeticMean [50, 0, 0]
   \<and> step demoProps (XhrProgress 0 NotComputable) demoUploading = Some demoUploading"
proof -
  have a: "map c_progress (chunksOf (xhrProgress 0 (Computable 50) demoUploading) 0) = [50, 0, 0]
   \<and> f_progress (files (xhrProgress 0 (Computable 50) demoUploading) 0) = Number 17"
    by (simp add: demo_defs async_defs)
  have b: "arithmeticMean [50, 0, 0] = 50 / 3" by (simp add: arithmeticMean_def)
  have c: "step demoProps (XhrProgress 0 NotComputable) demoUploading = Some demoUploading"
    using demoUploading_facts by (simp add: step_def xhrProgress_def)
  from a b c show ?thesis by simp
qed

text \<open>
  C7, amended. On a progress tick of a request whose entry has a non-empty chunk list: when
  the length is computable, the progress of the entry becomes the unweighted arithmetic
  mean of the chunk progress percentages rounded to the nearest whole number (a half
  upwards), and this value is emitted in one \<open>upload-progress\<close> event; when it is not,
  nothing changes and nothing is emitted.
\<close>

theorem progress_is_rounded_mean:
  assumes "step p (XhrProgress x ev) st = Some st'"
      and "chunksOf st (x_file (xhrs st x)) \<noteq> []"
  shows "case ev of
           NotComputable \<Rightarrow> st' = st
         | Computable n \<Rightarrow>
             f_progress (files st' (x_file (xhrs st x))) =
               Number (nat \<lfloor>arithmeticMean (map c_progress (chunksOf st' (x_file (xhrs st x)))) + 1 / 2\<rfloor>)
           \<and> trace st' = trace st @
               [Emit (UploadProgress (x_file (xhrs st x)) (f_progress (files st' (x_file (xhrs st x)))))]"
proof (cases ev)
  case NotComputable
  then show ?thesis using assms(1) by (auto simp: step_def xhrProgress_def split: if_splits)
next
  case (Computable n)
  let ?r = "x_file (xhrs st x)"
  let ?st1 = "updChunk (x_chunks (xhrs st x)) (x_index (xhrs st x)) (\<lambda>c. c\<lparr>c_progress := n\<rparr>) st"
  have st': "st' = updateFileProgress ?r ?st1"
    using assms(1) Computable by (auto simp: step_def xhrProgress_def Let_def split: if_splits)
  have ne: "map c_progress (chunksOf ?st1 ?r) \<noteq> []"
    using assms(2) chunksOf_updChunk_length[of "x_chunks (xhrs st x)" "x_index (xhrs st x)" _ st ?r]
    by (metis length_0_conv map_is_Nil_conv)
  have "f_progress (files st' ?r) = aggregate (map c_progress (chunksOf ?st1 ?r))"
    by (simp add: st' updateFileProgress_progress)
  then have A: "f_progress (files st' ?r) =
      Number (nat \<lfloor>arithmeticMean (map c_progress (chunksOf st' ?r)) + 1 / 2\<rfloor>)"
    using aggregate_rounds[OF ne] by (simp add: st')
  have B: "trace st' = trace st @ [Emit (UploadProgress ?r (f_progress (files st' ?r)))]"
    by (simp add: st' updateFileProgress_trace updateFileProgress_progress)
  from A B show ?thesis using Computable by simp
qed

theorem progress_is_rounded_mean_witness:
  "step demoProps (XhrProgress 0 (Computable 50)) demoUploading
     = Some (xhrProgress 0 (Computable 50) demoUploading)
   \<and> chunksOf demoUploading (x_file (xhrs demoUploading 0)) \<noteq> []
   \<and> f_progress (files (xhrProgress 0 (Computable 50) demoUploading) 0) =
       Number (nat \<lfloor>arithmeticMean (map c_progress (chunksOf (xhrProgress 0 (Computable 50) demoUploading) 0)) + 1 / 2\<rfloor>)"
proof -
  have s: "step demoProps (XhrProgress 0 (Computable 50)) demoUploading
     = Some (xhrProgress 0 (Computable 50) demoUploading)"
    using demoUploading_facts by (simp add: step_def)
  have n: "chunksOf demoUploading (x_file (xhrs demoUploading 0)) \<noteq> []"
    using demoUploading_facts(4) by (auto simp: demoUploading_facts(3))
  show ?thesis
    using progress_is_rounded_mean[OF s n] s n by (simp add: demoUploading_facts(3))
qed

section \<open>Admission of files\<close>

lemma addFile_rejected:
  "\<not> admissible p f \<Longrightarrow>
     addFile p f st = st\<lparr>trace := trace st @ [ElMessageError (r_name f) (p_maxSize p)]\<rparr>"
  by (simp add: addFile_def Let_def)

lemma addFile_admitted:
  "admissible p f \<Longrightarrow>
     addFile p f st =
       st\<lparr>fileList := fileList st @ [nextFile st],
          files := (files st)(nextFile st :=
                \<lparr>f_raw = f, f_name = r_name f, f_size = r_size f, f_type = r_type f,
                 f_status = Waiting, f_progress = Number 0, f_chunks = nextArray st,
                 f_identifier = None, f_uploadId = None, f_url = None\<rparr>),
          arrays := (arrays st)(nextArray st := []),
          nextFile := Suc (nextFile st),
          nextArray := Suc (nextArray st)\<rparr>"
  by (simp add: addFile_def Let_def)

lemma fold_addFile_nextFile:
  "nextFile (fold (addFile p) fs st) = nextFile st + length (filter (admissible p) fs)"
proof (induction fs arbitrary: st)
  case Nil show ?case by simp
next
  case (Cons f fs)
  show ?case
  proof (cases "admissible p f")
    case True
    then show ?thesis using Cons.IH[of "addFile p f st"] by (simp add: addFile_admitted)
  next
    case False
    then show ?thesis using Cons.IH[of "addFile p f st"] by (simp add: addFile_rejected)
  qed
qed

lemma fold_addFile_nextArray:
  "nextArray (fold (addFile p) fs st) = nextArray st + length (filter (admissible p) fs)"
proof (induction fs arbitrary: st)
  case Nil show ?case by simp
next
  case (Cons f fs)
  show ?case
  proof (cases "admissible p f")
    case True
    then show ?thesis using Cons.IH[of "addFile p f st"] by (simp add: addFile_admitted)
  next
    case False
    then show ?thesis using Cons.IH[of "addFile p f st"] by (simp add: addFile_rejected)
  qed
qed

lemma upt_shift: "[n..<n + Suc k] = n # [Suc n..<Suc n + k]"
proof -
  have "n < n + Suc k" by simp
  then have "[n..<n + Suc k] = n # [Suc n..<n + Suc k]" by (rule upt_conv_Cons)
  then show ?thesis by (simp only: add_Suc_right add_Suc)
qed

lemma fold_addFile_fileList:
  "fileList (fold (addFile p) fs st)
     = fileList st @ [nextFile st..<nextFile st + length (filter (admissible p) fs)]"
proof (induction fs arbitrary: st)
  case Nil show ?case by simp
next
  case (Cons f fs)
  show ?case
  proof (cases "admissible p f")
    case True
    have "fileList (fold (addFile p) (f # fs) st)
            = (fileList st @ [nextFile st])
              @ [Suc (nextFile st)..<Suc (nextFile st) + length (filter (admissible p) fs)]"
      using True Cons.IH[of "addFile p f st"] by (simp add: addFile_admitted)
    also have "\<dots> = fileList st @ [nextFile st..<nextFile st + Suc (length (filter (admissible p) fs))]"
      by (simp only: upt_shift append_assoc append_Cons append_Nil)
    finally show ?thesis using True by simp
  next
    case False
    then show ?thesis using Cons.IH[of "addFile p f st"] by (simp add: addFile_rejected)
  qed
qed

lemma fold_addFile_trace:
  "trace (fold (addFile p) fs st)
     = trace st @ map (\<lambda>f. ElMessageError (r_name f) (p_maxSize p))
         (filter (\<lambda>f. \<not> admissible p f) fs)"
proof (induction fs arbitrary: st)
  case Nil show ?case by simp
next
  case (Cons f fs)
  show ?case
  proof (cases "admissible p f")
    case True
    then show ?thesis using Cons.IH[of "addFile p f st"] by (simp add: addFile_admitted)
  next
    case False
    then show ?thesis using Cons.IH[of "addFile p f st"] by (simp add: addFile_rejected)
  qed
qed

lemma fold_addFile_old:
  "r < nextFile st \<Longrightarrow> files (fold (addFile p) fs st) r = files st r"
  "a < nextArray st \<Longrightarrow> arrays (fold (addFile p) fs st) a = arrays st a"
proof (induction fs arbitrary: st)
  case Nil
  { case 1 show ?case by simp }
  { case 2 show ?case by simp }
next
  case (Cons f fs)
  { case 1
    then show ?case
      using Cons.IH(1)[of "addFile p f st"]
      by (cases "admissible p f") (simp_all add: addFile_admitted addFile_rejected) }
  { case 2
    then show ?case
      using Cons.IH(2)[of "addFile p f st"]
      by (cases "admissible p f") (simp_all add: addFile_admitted addFile_rejected) }
qed

lemma fold_addFile_tasks:
  "tasks (fold (addFile p) fs st) = tasks st"
  "nextTask (fold (addFile p) fs st) = nextTask st"
  by (induction fs arbitrary: st; simp add: addFile_def Let_def)+


lemma fold_addFile_entries:
  "i < length (filter (admissible p) fs) \<Longrightarrow>
     files (fold (addFile p) fs st) (nextFile st + i) =
       (let f = filter (admissible p) fs ! i in
        \<lparr>f_raw = f, f_name = r_name f, f_size = r_size f, f_type = r_type f,
         f_status = Waiting, f_progress = Number 0, f_chunks = nextArray st + i,
         f_identifier = None, f_uploadId = None, f_url = None\<rparr>)
     \<and> arrays (fold (addFile p) fs st) (nextArray st + i) = []"
proof (induction fs arbitrary: st i)
  case Nil
  then show ?case by simp
next
  case (Cons f fs)
  let ?st' = "addFile p f st"
  show ?case
  proof (cases "admissible p f")
    case False
    then have "?st' = st\<lparr>trace := trace st @ [ElMessageError (r_name f) (p_maxSize p)]\<rparr>"
      by (rule addFile_rejected)
    then have "nextFile ?st' = nextFile st" "nextArray ?st' = nextArray st" by simp_all
    moreover have "i < length (filter (admissible p) fs)" using Cons.prems False by simp
    ultimately show ?thesis using Cons.IH[of i ?st'] False by simp
  next
    case True
    note adm = addFile_admitted[OF True, of st]
    have nf: "nextFile ?st' = Suc (nextFile st)" "nextArray ?st' = Suc (nextArray st)"
      by (simp_all add: adm)
    show ?thesis
    proof (cases i)
      case 0
      have "files (fold (addFile p) fs ?st') (nextFile st) = files ?st' (nextFile st)"
        by (rule fold_addFile_old(1)) (simp add: nf)
      moreover have "arrays (fold (addFile p) fs ?st') (nextArray st) = arrays ?st' (nextArray st)"
        by (rule fold_addFile_old(2)) (simp add: nf)
      ultimately show ?thesis using True 0 by (simp add: adm)
    next
      case (Suc j)
      then have "j < length (filter (admissible p) fs)" using Cons.prems True by simp
      from Cons.IH[OF this, of ?st'] show ?thesis using True Suc by (simp add: nf)
    qed
  qed
qed

lemma uploadFile_calls:
  "fileList (finish (uploadFile p r st)) = fileList st"
  "trace (finish (uploadFile p r st)) = trace st
   \<or> (nextTask (finish (uploadFile p r st)) = Suc (nextTask st)
      \<and> t_file (tasks (finish (uploadFile p r st)) (nextTask st)) = r
      \<and> (\<exists>q. trace (finish (uploadFile p r st)) = trace st @ [CreateCall (nextTask st) q]))"
  by (simp_all add: uploadFile_def uploadChunks_def finish_def Let_def)

lemma calls_compose:
  assumes fl0: "fileList s = fileList st" and fl1: "fileList e = fileList s"
      and le: "nextTask st \<le> nextTask s" "nextTask s \<le> nextTask e"
      and keep: "\<forall>t<nextTask s. tasks e t = tasks s t"
      and hd: "trace s = trace st
               \<or> (nextTask s = Suc (nextTask st) \<and> t_file (tasks s (nextTask st)) = r
                  \<and> (\<exists>q. trace s = trace st @ [CreateCall (nextTask st) q]))"
      and tl: "trace e = trace s @ xs"
              "\<forall>c\<in>set xs. \<exists>t q. c = CreateCall t q \<and> nextTask s \<le> t \<and> t < nextTask e
                  \<and> t_file (tasks e t) \<in> set rs"
  shows "fileList e = fileList st
   \<and> (\<exists>ys. trace e = trace st @ ys
        \<and> (\<forall>c\<in>set ys. \<exists>t q. c = CreateCall t q \<and> nextTask st \<le> t \<and> t < nextTask e
              \<and> t_file (tasks e t) \<in> set (r # rs)))"
proof -
  have rest: "\<forall>c\<in>set xs. \<exists>t q. c = CreateCall t q \<and> nextTask st \<le> t \<and> t < nextTask e
                \<and> t_file (tasks e t) \<in> set (r # rs)"
  proof
    fix c assume "c \<in> set xs"
    with tl(2) obtain t q where "c = CreateCall t q" "nextTask s \<le> t" "t < nextTask e"
      "t_file (tasks e t) \<in> set rs" by blast
    then show "\<exists>t q. c = CreateCall t q \<and> nextTask st \<le> t \<and> t < nextTask e
                \<and> t_file (tasks e t) \<in> set (r # rs)"
      using le(1) by auto
  qed
  from hd show ?thesis
  proof
    assume "trace s = trace st"
    then have "trace e = trace st @ xs" using tl(1) by simp
    with rest fl0 fl1 show ?thesis by metis
  next
    assume new: "nextTask s = Suc (nextTask st) \<and> t_file (tasks s (nextTask st)) = r
                  \<and> (\<exists>q. trace s = trace st @ [CreateCall (nextTask st) q])"
    then obtain q where q: "trace s = trace st @ [CreateCall (nextTask st) q]" by blast
    have "tasks e (nextTask st) = tasks s (nextTask st)" using keep new by simp
    then have first: "nextTask st \<le> nextTask st \<and> nextTask st < nextTask e
                \<and> t_file (tasks e (nextTask st)) \<in> set (r # rs)"
      using new le(2) by simp
    have tr: "trace e = trace st @ (CreateCall (nextTask st) q # xs)" using tl(1) q by simp
    have all: "\<forall>c\<in>set (CreateCall (nextTask st) q # xs). \<exists>t q. c = CreateCall t q \<and> nextTask st \<le> t
                \<and> t < nextTask e \<and> t_file (tasks e t) \<in> set (r # rs)"
    proof
      fix c assume "c \<in> set (CreateCall (nextTask st) q # xs)"
      then consider "c = CreateCall (nextTask st) q" | "c \<in> set xs" by auto
      then show "\<exists>t q. c = CreateCall t q \<and> nextTask st \<le> t
                \<and> t < nextTask e \<and> t_file (tasks e t) \<in> set (r # rs)"
      proof cases
        case 1 then show ?thesis using first by blast
      next
        case 2 then show ?thesis using rest by blast
      qed
    qed
    from tr all fl0 fl1 show ?thesis by metis
  qed
qed

lemma startUploadFrom_calls:
  "fileList (finish (startUploadFrom p rs st)) = fileList st
   \<and> (\<exists>xs. trace (finish (startUploadFrom p rs st)) = trace st @ xs
        \<and> (\<forall>c\<in>set xs. \<exists>t q. c = CreateCall t q \<and> nextTask st \<le> t
              \<and> t < nextTask (finish (startUploadFrom p rs st))
              \<and> t_file (tasks (finish (startUploadFrom p rs st)) t) \<in> set rs))"
proof (induction rs arbitrary: st)
  case Nil
  show ?case by (simp add: finish_def)
next
  case (Cons r rs)
  show ?case
  proof (cases "f_status (files st r) = Waiting \<or> f_status (files st r) = Error")
    case False
    then have eq: "startUploadFrom p (r # rs) st = startUploadFrom p rs st" by simp
    from Cons.IH[of st] obtain xs where
      fl: "fileList (finish (startUploadFrom p rs st)) = fileList st" and
      xs: "trace (finish (startUploadFrom p rs st)) = trace st @ xs"
          "\<forall>c\<in>set xs. \<exists>t q. c = CreateCall t q \<and> nextTask st \<le> t
              \<and> t < nextTask (finish (startUploadFrom p rs st))
              \<and> t_file (tasks (finish (startUploadFrom p rs st)) t) \<in> set rs" by blast
    show ?thesis unfolding eq
      by (rule calls_compose[where s=st and xs=xs, OF refl fl _ _ _ _ xs])
         (use startUploadFrom_spawns[of st p rs] in \<open>simp_all add: spawns_def\<close>)
  next
    case True
    let ?s = "finish (uploadFile p r st)"
    show ?thesis
    proof (cases "uploadFile p r st")
      case (Thrown s)
      then have eq: "finish (startUploadFrom p (r # rs) st) = ?s"
        using True by (simp add: finish_def)
      have tr: "trace ?s = trace st"
        using Thrown by (auto simp: uploadFile_def finish_def Let_def split: if_splits)
      have "trace ?s = trace st @ [] \<and> (\<forall>c\<in>set []. \<exists>t q. c = CreateCall t q \<and> nextTask st \<le> t
              \<and> t < nextTask ?s \<and> t_file (tasks ?s t) \<in> set (r # rs))"
        using tr by simp
      then show ?thesis unfolding eq using uploadFile_calls(1)[of p r st] by blast
    next
      case (Returned s)
      then have s: "s = ?s" by (simp add: finish_def)
      let ?e = "finish (startUploadFrom p rs ?s)"
      have "startUploadFrom p (r # rs) st = startUploadFrom p rs s"
        using True Returned by simp
      then have eq: "finish (startUploadFrom p (r # rs) st) = ?e"
        unfolding s by (rule arg_cong)
      from Cons.IH[of ?s] obtain xs where
        fl: "fileList ?e = fileList ?s" and
        xs: "trace ?e = trace ?s @ xs"
            "\<forall>c\<in>set xs. \<exists>t q. c = CreateCall t q \<and> nextTask ?s \<le> t \<and> t < nextTask ?e
                \<and> t_file (tasks ?e t) \<in> set rs" by blast
      have sp: "spawns ?s ?e" by (rule startUploadFrom_spawns)
      have sp0: "spawns st ?s" by (rule uploadFile_spawns)
      have le: "nextTask st \<le> nextTask ?s" "nextTask ?s \<le> nextTask ?e"
        using sp sp0 by (simp_all add: spawns_def)
      have keep: "\<forall>t<nextTask ?s. tasks ?e t = tasks ?s t" using sp by (simp add: spawns_def)
      show ?thesis unfolding eq
        by (rule calls_compose[OF uploadFile_calls(1) fl le keep uploadFile_calls(2) xs])
    qed
  qed
qed


lemma startUpload_calls:
  "fileList (finish (startUpload p st)) = fileList st
   \<and> (\<exists>xs. trace (finish (startUpload p st)) = trace st @ xs
        \<and> (\<forall>c\<in>set xs. \<exists>t q. c = CreateCall t q \<and> nextTask st \<le> t
              \<and> t_file (tasks (finish (startUpload p st)) t) \<in> set (fileList st)))"
proof -
  from startUploadFrom_calls[of p "fileList st" st] obtain xs where
    fl: "fileList (finish (startUploadFrom p (fileList st) st)) = fileList st" and
    xs: "trace (finish (startUploadFrom p (fileList st) st)) = trace st @ xs"
        "\<forall>c\<in>set xs. \<exists>t q. c = CreateCall t q \<and> nextTask st \<le> t
              \<and> t < nextTask (finish (startUploadFrom p (fileList st) st))
              \<and> t_file (tasks (finish (startUploadFrom p (fileList st) st)) t) \<in> set (fileList st)"
    by blast
  have "\<forall>c\<in>set xs. \<exists>t q. c = CreateCall t q \<and> nextTask st \<le> t
              \<and> t_file (tasks (finish (startUploadFrom p (fileList st) st)) t) \<in> set (fileList st)"
    using xs(2) by blast
  with fl xs(1) show ?thesis unfolding startUpload_def by blast
qed

text \<open>
  C9, as the spec states it, fails: \<open>validateAndAddFiles\<close> emits \<open>file-change\<close> after its
  loop whatever the loop did, so for a file of 6 MB against a limit of 5 MB the notification
  is not the only effect (the queue stays empty).
\<close>

theorem admission_gate_counterexample:
  "r_size (demoFile\<lparr>r_size := 6291456\<rparr>) > p_maxSize (demoProps\<lparr>p_maxSize := 5\<rparr>) * 1024 * 1024
   \<and> trace (finish (validateAndAddFiles (demoProps\<lparr>p_maxSize := 5\<rparr>)
                [demoFile\<lparr>r_size := 6291456\<rparr>] initialState))
       = [ElMessageError ''scores.csv'' 5, Emit (FileChange [])]
   \<and> fileList (finish (validateAndAddFiles (demoProps\<lparr>p_maxSize := 5\<rparr>)
                [demoFile\<lparr>r_size := 6291456\<rparr>] initialState)) = []"
  by (simp add: demo_defs)

text \<open>
  C9, amended. \<open>validateAndAddFiles\<close> appends to the queue one new entry for each offered
  file within the limit, in order, with the status \<open>waiting\<close>, progress 0 and no chunks, and
  leaves the existing entries as they are; a file above the limit gets no entry. Its effects
  are, in this order: one notification for each file above the limit, the \<open>file-change\<close>
  event with the queue, and (only with \<open>autoUpload\<close>) create calls of new tasks, each for an
  entry of the queue. So no create, chunk or complete call is made for a rejected file.
\<close>

theorem admission_gate:
  "let st1 = fold (addFile p) fs st;
       st' = finish (validateAndAddFiles p fs st);
       ok = filter (admissible p) fs;
       bad = filter (\<lambda>f. \<not> admissible p f) fs
   in fileList st' = fileList st @ [nextFile st..<nextFile st + length ok]
    \<and> (\<forall>i<length ok. f_raw (files st1 (nextFile st + i)) = ok ! i
           \<and> f_status (files st1 (nextFile st + i)) = Waiting
           \<and> f_progress (files st1 (nextFile st + i)) = Number 0
           \<and> chunksOf st1 (nextFile st + i) = [])
    \<and> (\<forall>r<nextFile st. files st1 r = files st r)
    \<and> (\<exists>xs. trace st' = trace st @ map (\<lambda>f. ElMessageError (r_name f) (p_maxSize p)) bad
                  @ [Emit (FileChange (fileList st'))] @ xs
           \<and> (\<not> p_autoUpload p \<longrightarrow> xs = [])
           \<and> (\<forall>c\<in>set xs. \<exists>t q. c = CreateCall t q \<and> nextTask st \<le> t
                  \<and> t_file (tasks st' t) \<in> set (fileList st')))"
proof -
  let ?st1 = "fold (addFile p) fs st"
  let ?st2 = "?st1\<lparr>trace := trace ?st1 @ [Emit (FileChange (fileList ?st1))]\<rparr>"
  let ?st' = "finish (validateAndAddFiles p fs st)"
  let ?ok = "filter (admissible p) fs"
  let ?bad = "filter (\<lambda>f. \<not> admissible p f) fs"
  let ?msgs = "map (\<lambda>f. ElMessageError (r_name f) (p_maxSize p)) ?bad"
  have fl1: "fileList ?st1 = fileList st @ [nextFile st..<nextFile st + length ?ok]"
    by (rule fold_addFile_fileList)
  have tr2: "trace ?st2 = trace st @ ?msgs @ [Emit (FileChange (fileList ?st1))]"
    by (simp add: fold_addFile_trace)
  have nt2: "nextTask ?st2 = nextTask st" by (simp add: fold_addFile_tasks)
  have B: "\<forall>i<length ?ok. f_raw (files ?st1 (nextFile st + i)) = ?ok ! i
           \<and> f_status (files ?st1 (nextFile st + i)) = Waiting
           \<and> f_progress (files ?st1 (nextFile st + i)) = Number 0
           \<and> chunksOf ?st1 (nextFile st + i) = []"
    using fold_addFile_entries[of _ p fs st] by (simp add: Let_def chunksOf_def)
  have C: "\<forall>r<nextFile st. files ?st1 r = files st r"
    using fold_addFile_old(1) by blast
  have D: "fileList ?st' = fileList ?st1
    \<and> (\<exists>xs. trace ?st' = trace st @ ?msgs @ [Emit (FileChange (fileList ?st1))] @ xs
           \<and> (\<not> p_autoUpload p \<longrightarrow> xs = [])
           \<and> (\<forall>c\<in>set xs. \<exists>t q. c = CreateCall t q \<and> nextTask st \<le> t
                  \<and> t_file (tasks ?st' t) \<in> set (fileList ?st1)))"
  proof (cases "p_autoUpload p \<and> fileList ?st2 \<noteq> []")
    case False
    have "validateAndAddFiles p fs st = Returned ?st2"
      unfolding validateAndAddFiles_def Let_def using False by (rule if_not_P)
    then have eq: "?st' = ?st2" by (simp add: finish_def)
    have "trace ?st2 = trace st @ ?msgs @ [Emit (FileChange (fileList ?st1))] @ []
           \<and> (\<not> p_autoUpload p \<longrightarrow> [] = ([] :: effect list))
           \<and> (\<forall>c\<in>set []. \<exists>t q. c = CreateCall t q \<and> nextTask st \<le> t
                  \<and> t_file (tasks ?st2 t) \<in> set (fileList ?st1))"
      using tr2 by simp
    then show ?thesis unfolding eq by (intro conjI exI[of _ "[]"]) simp_all
  next
    case True
    have "validateAndAddFiles p fs st = startUpload p ?st2"
      unfolding validateAndAddFiles_def Let_def using True by (rule if_P)
    then have eq: "?st' = finish (startUpload p ?st2)" by simp
    from startUpload_calls[of p ?st2] obtain xs where
      fl: "fileList (finish (startUpload p ?st2)) = fileList ?st2" and
      xs: "trace (finish (startUpload p ?st2)) = trace ?st2 @ xs"
          "\<forall>c\<in>set xs. \<exists>t q. c = CreateCall t q \<and> nextTask ?st2 \<le> t
              \<and> t_file (tasks (finish (startUpload p ?st2)) t) \<in> set (fileList ?st2)"
      by blast
    have t: "trace (finish (startUpload p ?st2))
               = trace st @ ?msgs @ [Emit (FileChange (fileList ?st1))] @ xs"
      using xs(1) tr2 by simp
    have c: "\<forall>c\<in>set xs. \<exists>t q. c = CreateCall t q \<and> nextTask st \<le> t
              \<and> t_file (tasks (finish (startUpload p ?st2)) t) \<in> set (fileList ?st1)"
      using xs(2) nt2 by simp
    have a: "\<not> p_autoUpload p \<longrightarrow> xs = []" using True by simp
    show ?thesis unfolding eq using fl t c a by (intro conjI exI[of _ xs]) simp_all
  qed
  then obtain xs where
    fl: "fileList ?st' = fileList ?st1" and
    xs: "trace ?st' = trace st @ ?msgs @ [Emit (FileChange (fileList ?st1))] @ xs"
        "\<not> p_autoUpload p \<longrightarrow> xs = []"
        "\<forall>c\<in>set xs. \<exists>t q. c = CreateCall t q \<and> nextTask st \<le> t
                  \<and> t_file (tasks ?st' t) \<in> set (fileList ?st1)" by blast
  have A: "fileList ?st' = fileList st @ [nextFile st..<nextFile st + length ?ok]"
    using fl fl1 by simp
  have E: "\<exists>xs. trace ?st' = trace st @ ?msgs @ [Emit (FileChange (fileList ?st'))] @ xs
           \<and> (\<not> p_autoUpload p \<longrightarrow> xs = [])
           \<and> (\<forall>c\<in>set xs. \<exists>t q. c = CreateCall t q \<and> nextTask st \<le> t
                  \<and> t_file (tasks ?st' t) \<in> set (fileList ?st'))"
    using xs unfolding fl by blast
  from A B C E show ?thesis unfolding Let_def by blast
qed

theorem admission_gate_witness:
  "fileList (finish (validateAndAddFiles (demoProps\<lparr>p_maxSize := 5\<rparr>)
      [demoFile\<lparr>r_size := 6291456\<rparr>, demoFile\<lparr>r_size := 1048576\<rparr>] initialState)) = [0]
   \<and> f_raw (files (fold (addFile (demoProps\<lparr>p_maxSize := 5\<rparr>))
      [demoFile\<lparr>r_size := 6291456\<rparr>, demoFile\<lparr>r_size := 1048576\<rparr>] initialState) 0)
       = demoFile\<lparr>r_size := 1048576\<rparr>
   \<and> f_status (files (fold (addFile (demoProps\<lparr>p_maxSize := 5\<rparr>))
      [demoFile\<lparr>r_size := 6291456\<rparr>, demoFile\<lparr>r_size := 1048576\<rparr>] initialState) 0) = Waiting
   \<and> f_progress (files (fold (addFile (demoProps\<lparr>p_maxSize := 5\<rparr>))
      [demoFile\<lparr>r_size := 6291456\<rparr>, demoFile\<lparr>r_size := 1048576\<rparr>] initialState) 0) = Number 0"
  using admission_gate[of "demoProps\<lparr>p_maxSize := 5\<rparr>"
      "[demoFile\<lparr>r_size := 6291456\<rparr>, demoFile\<lparr>r_size := 1048576\<rparr>]" initialState]
  by (simp add: Let_def demoProps_def demoFile_def initialState_def)

section \<open>Abort\<close>

text \<open>
  C4 fails on the code. \<open>uploadChunk\<close> registers handlers for \<open>load\<close> and \<open>error\<close> only, and
  \<open>xhr.abort()\<close> fires neither. In the run below the three chunk requests are in flight
  when the user clicks cancel: the requests are aborted and the entry gets the status
  \<open>error\<close>, but the three chunks keep the status \<open>uploading\<close>, the counter of running
  uploads stays at 3, no event of an aborted request can happen any more, and a firing of
  the join check changes nothing.
\<close>

theorem aborted_chunk_stays_uploading:
  "map_option
     (\<lambda>s. (map (\<lambda>x. x_state (xhrs s x)) [0, 1, 2], map c_status (chunksOf s 0)))
     (run smallProps
        [SelectFiles [smallFile], CreateResponse 0 (Http 200 (Some (Some ''u1'')))] initialState)
     = Some ([Pending, Pending, Pending], [Uploading, Uploading, Uploading])
   \<and> map_option
     (\<lambda>s. (map (\<lambda>x. x_state (xhrs s x)) [0, 1, 2], map c_status (chunksOf s 0),
           f_status (files s 0), t_running (tasks s 0), pcOf s 0,
           step smallProps (XhrError 0) s = None, step smallProps (XhrLoad 0 200) s = None))
     (run smallProps
        [SelectFiles [smallFile], CreateResponse 0 (Http 200 (Some (Some ''u1''))),
         ClickCancel 0] initialState)
     = Some ([Aborted, Aborted, Aborted], [Uploading, Uploading, Uploading], Error, 3, Joining,
             True, True)
   \<and> map_option
     (\<lambda>s. (map c_status (chunksOf s 0), f_status (files s 0), pcOf s 0,
           filter isUploadError (trace s)))
     (run smallProps
        [SelectFiles [smallFile], CreateResponse 0 (Http 200 (Some (Some ''u1''))),
         ClickCancel 0, JoinTick 0] initialState)
     = Some ([Uploading, Uploading, Uploading], Error, Joining, [])"
  by (simp add: step_def eval_defs)

section \<open>Progress along a session\<close>

text \<open>
  The function that \<open>updateFileProgress\<close> computes is monotone: on chunk lists of the same
  length, not empty, larger chunk percentages give a larger or equal progress.
\<close>

lemma aggregate_mono:
  assumes "list_all2 (\<le>) xs ys" and "xs \<noteq> []"
  shows "\<exists>a b. aggregate xs = Number a \<and> aggregate ys = Number b \<and> a \<le> b"
proof -
  have len: "length xs = length ys" using assms(1) by (rule list_all2_lengthD)
  have "sum_list xs \<le> sum_list ys"
    using assms(1) by (induction rule: list_all2_induct) auto
  then have "(2 * sum_list xs + length xs) div (2 * length xs)
               \<le> (2 * sum_list ys + length ys) div (2 * length ys)"
    unfolding len by (intro div_le_mono) simp
  moreover have "ys \<noteq> []" using assms(2) len by auto
  ultimately show ?thesis using assms(2) by (simp add: aggregate_def)
qed

text \<open>
  C8 fails on the code. \<open>retryUpload\<close> sets the progress of the entry to 0 before it calls
  \<open>uploadFile\<close>, but \<open>startUpload\<close> calls \<open>uploadFile\<close> for errored entries too, and
  \<open>uploadFile\<close> leaves the progress as it is. In the run below the first chunk is accepted
  and the second answered with status 500, so the join check fails the entry at progress
  33. The host then calls \<open>upload\<close> (with \<open>autoUpload\<close>, adding another file does the same):
  the new session starts with the progress still 33 over fresh chunks, and its first
  progress tick of 10 percent takes the progress down to 3, with no cancel and no retry.
\<close>

theorem restart_keeps_stale_progress:
  "map_option
     (\<lambda>s. (f_status (files s 0), f_progress (files s 0), map c_progress (chunksOf s 0)))
     (run smallProps
        [SelectFiles [smallFile], CreateResponse 0 (Http 200 (Some (Some ''u1''))),
         XhrLoad 0 200, XhrLoad 1 500, JoinTick 0] initialState)
     = Some (Error, Number 33, [100, 0, 0])
   \<and> map_option
     (\<lambda>s. (f_status (files s 0), f_progress (files s 0), map c_progress (chunksOf s 0)))
     (run smallProps
        [SelectFiles [smallFile], CreateResponse 0 (Http 200 (Some (Some ''u1''))),
         XhrLoad 0 200, XhrLoad 1 500, JoinTick 0,
         HostUpload, CreateResponse 1 (Http 200 (Some (Some ''u2'')))] initialState)
     = Some (Uploading, Number 33, [0, 0, 0])
   \<and> map_option
     (\<lambda>s. (f_status (files s 0), f_progress (files s 0), map c_progress (chunksOf s 0)))
     (run smallProps
        [SelectFiles [smallFile], CreateResponse 0 (Http 200 (Some (Some ''u1''))),
         XhrLoad 0 200, XhrLoad 1 500, JoinTick 0,
         HostUpload, CreateResponse 1 (Http 200 (Some (Some ''u2''))),
         XhrProgress 3 (Computable 10)] initialState)
     = Some (Uploading, Number 3, [10, 0, 0])"
  by (simp add: step_def eval_defs)

end
